theory Spec2Isabelle
  imports Complex_Main
begin

section \<open>Shared helpers: \<open>scripts/common.py\<close>\<close>

text \<open>
  Exceptions of the Python code are values. \<open>RuntimeError\<close> carries its message;
  \<open>OtherException\<close> stands for any exception that is none of the named ones.
  A Python string is a list of characters, so \<open>length\<close> and \<open>take\<close> count what
  \<open>len\<close> and slicing count.
\<close>

datatype error =
    IndexError
  | ValueError
  | AttributeError
  | ReadTimeout
  | ConnectionError
  | HTTPError
  | JSONDecodeError
  | OutOfBoundsDatetime
  | OutOfBoundsTimedelta
  | OtherException
  | RuntimeError string

text \<open>
  A cell of the \<open>geom\<close> column: a string, or the missing value pandas puts there
  (not a \<open>str\<close>).
\<close>

datatype cell = Str string | Missing

definition startswith :: "string \<Rightarrow> string \<Rightarrow> bool" where
  "startswith s p = (take (length p) s = p)"

text \<open>\<open>s.split(sep, 1)\<close>: at most one split, at the first occurrence of the separator.\<close>

definition split1 :: "char \<Rightarrow> string \<Rightarrow> string list" where
  "split1 sep s =
     (if sep \<in> set s
      then [takeWhile (\<lambda>c. c \<noteq> sep) s, tl (dropWhile (\<lambda>c. c \<noteq> sep) s)]
      else [s])"

text \<open>
  \<^verbatim>\<open>
  def strip_srid(geom):
      if not isinstance(geom, str): return geom
      if geom.startswith("SRID="): return geom.split(";", 1)[1]
      return geom
  \<close>
  Indexing the split result at 1 raises \<open>IndexError\<close> when the string has no \<open>;\<close>.
\<close>

fun strip_srid :: "cell \<Rightarrow> error + cell" where
  "strip_srid Missing = Inr Missing"
| "strip_srid (Str geom) =
     (if startswith geom ''SRID=''
      then (let parts = split1 CHR '';'' geom
            in if 1 < length parts then Inr (Str (parts ! 1)) else Inl IndexError)
      else Inr (Str geom))"

text \<open>Stripping twice: the second call runs on what the first returned, if it returned.\<close>

definition strip_srid_twice :: "cell \<Rightarrow> error + cell" where
  "strip_srid_twice g = (case strip_srid g of Inl e \<Rightarrow> Inl e | Inr h \<Rightarrow> strip_srid h)"

subsection \<open>The HTTP session\<close>

text \<open>
  \<open>make_retry_session\<close> builds a \<open>requests\<close> session whose adapter retries on its own
  (connection failures and the statuses 429, 500, 502, 503, 504, without raising on the
  last status). What the scripts see of it is the outcome of each \<open>session.get\<close>, after
  the adapter has given up retrying: a read timeout, a connection-level error, another
  exception, or a response. The outside world is a function from the number of GETs
  issued so far and the request parameters to that outcome; the trace records every GET
  and every \<open>time.sleep\<close> of the scripts, in order, with the sleep in seconds.

  A parsed JSON body is a dictionary, of which only the list under the one key the caller
  reads matters (\<open>results\<close> or \<open>elements\<close>, \<open>None\<close> when the key is absent), or some
  other JSON value. \<open>json_body\<close> is \<open>None\<close> when the body is not JSON at all.
\<close>

datatype 'r json = JDict "'r list option" | JOther

record 'r response =
  status_code :: nat
  body_text :: string
  json_body :: "'r json option"

datatype 'r outcome = Timeout | ConnFail | Fails | Returns "'r response"

datatype 'p event = is_GET: GET 'p | SLEEP rat

type_synonym ('p, 'r) session = "nat \<Rightarrow> 'p \<Rightarrow> 'r outcome"

definition gets :: "'p event list \<Rightarrow> nat" where
  "gets tr = length (filter is_GET tr)"

text \<open>\<open>Response.raise_for_status\<close> of \<open>requests\<close>: an \<open>HTTPError\<close> for 4xx and 5xx.\<close>

definition raise_for_status :: "'r response \<Rightarrow> error + unit" where
  "raise_for_status r =
     (if 400 \<le> status_code r \<and> status_code r < 600 then Inl HTTPError else Inr ())"


section \<open>The weather pipeline: \<open>scripts/noaa_weather_join.py\<close>\<close>

subsection \<open>\<open>ncei_request\<close>\<close>

text \<open>The decimal form of a status code, as an f-string prints it.\<close>

fun str_nat :: "nat \<Rightarrow> string" where
  "str_nat n =
     (if n < 10 then [''0123456789'' ! n]
      else str_nat (n div 10) @ [''0123456789'' ! (n mod 10)])"

definition manual_retries :: nat where
  "manual_retries = 2"

text \<open>\<^verbatim>\<open>f"NCEI HTTP {r.status_code}: {r.text[:400]}"\<close>\<close>

definition http_failure_message :: "'r response \<Rightarrow> string" where
  "http_failure_message r =
     ''NCEI HTTP '' @ str_nat (status_code r) @ '': '' @ take 400 (body_text r)"

text \<open>
  \<^verbatim>\<open>
  for i in range(manual_retries + 1):
      try:
          r = session.get(url, headers=headers, params=params, timeout=timeout)
          r.raise_for_status()
          return r.json()
      except (ReadTimeout, ConnectionError) as e:
          if i < manual_retries:
              time.sleep(2 * (i + 1)); continue
          raise
      except requests.HTTPError:
          raise RuntimeError(f"NCEI HTTP {r.status_code}: {r.text[:400]}")
  \<close>
  The loop runs over the list of attempt numbers. A loop that ran out of attempts
  without returning or raising would return Python's \<open>None\<close>, which is not a
  dictionary.
\<close>

fun ncei_attempts ::
  "('p, 'r) session \<Rightarrow> 'p \<Rightarrow> nat list \<Rightarrow> 'p event list \<Rightarrow> (error + 'r json) \<times> 'p event list"
where
  "ncei_attempts session params [] tr = (Inr JOther, tr)"
| "ncei_attempts session params (i # rest) tr =
     (case session (gets tr) params of
        Timeout \<Rightarrow>
          if i < manual_retries
          then ncei_attempts session params rest (tr @ [GET params, SLEEP (2 * (of_nat i + 1))])
          else (Inl ReadTimeout, tr @ [GET params])
      | ConnFail \<Rightarrow>
          if i < manual_retries
          then ncei_attempts session params rest (tr @ [GET params, SLEEP (2 * (of_nat i + 1))])
          else (Inl ConnectionError, tr @ [GET params])
      | Fails \<Rightarrow> (Inl OtherException, tr @ [GET params])
      | Returns r \<Rightarrow>
          (case raise_for_status r of
             Inl _ \<Rightarrow> (Inl (RuntimeError (http_failure_message r)), tr @ [GET params])
           | Inr _ \<Rightarrow>
               (case json_body r of
                  None \<Rightarrow> (Inl JSONDecodeError, tr @ [GET params])
                | Some js \<Rightarrow> (Inr js, tr @ [GET params]))))"

definition ncei_request ::
  "('p, 'r) session \<Rightarrow> 'p \<Rightarrow> 'p event list \<Rightarrow> (error + 'r json) \<times> 'p event list"
where
  "ncei_request session params tr = ncei_attempts session params [0..<manual_retries + 1] tr"

text \<open>\<^verbatim>\<open>js.get("results", []) if isinstance(js, dict) else []\<close>\<close>

definition results_of :: "'r json \<Rightarrow> 'r list" where
  "results_of js = (case js of JDict (Some rs) \<Rightarrow> rs | _ \<Rightarrow> [])"

subsection \<open>Distance and bounding box\<close>

text \<open>
  Python's floats are read as real numbers: \<open>math.sin\<close>, \<open>cos\<close>, \<open>asin\<close>, \<open>sqrt\<close> are
  the real functions, and rounding is not modelled. \<open>math.sqrt\<close> and \<open>math.asin\<close>
  raise outside their domains; on the reals the argument \<open>a\<close> below always lies in
  \<open>[0, 1]\<close> (lemma \<open>haversine_arg_range\<close>), so neither raises.
\<close>

definition radians :: "real \<Rightarrow> real" where
  "radians x = x * (pi / 180)"

definition bbox_from_point :: "real \<Rightarrow> real \<Rightarrow> real \<Rightarrow> real \<times> real \<times> real \<times> real" where
  "bbox_from_point lat lon km =
     (let dlat = km / 111;
          dlon = km / (111 * max (1 / 10) (cos (radians lat)))
      in (lon - dlon, lat - dlat, lon + dlon, lat + dlat))"

definition haversine_km :: "real \<Rightarrow> real \<Rightarrow> real \<Rightarrow> real \<Rightarrow> real" where
  "haversine_km lat1 lon1 lat2 lon2 =
     (let R = 6371;
          p1 = radians lat1; p2 = radians lat2;
          dphi = radians (lat2 - lat1);
          dlmb = radians (lon2 - lon1);
          a = (sin (dphi / 2))\<^sup>2 + cos p1 * cos p2 * (sin (dlmb / 2))\<^sup>2
      in 2 * R * arcsin (sqrt a))"

subsection \<open>\<open>find_nearest_station\<close>\<close>

text \<open>
  A station of the API's answer, with the fields the code reads and one field of the
  provider's metadata; the returned copy carries \<open>dist_km\<close> as well. The coordinates
  are numbers, as the API sends them: an entry without them, on which \<open>haversine_km\<close>
  would raise, is not a value of the type.
\<close>

record station =
  station_id :: string
  station_name :: string
  latitude :: real
  longitude :: real

record located_station = station +
  dist_km :: real

record station_params =
  sp_datasetid :: string
  sp_extent :: "real \<times> real \<times> real \<times> real"
  sp_startdate :: string
  sp_enddate :: string
  sp_limit :: nat

text \<open>
  \<open>min(results, key=...)\<close>: the running best is replaced only by a strictly smaller
  key, so the first of several equal minima is kept; on an empty list \<open>min\<close> raises
  \<open>ValueError\<close>.
\<close>

fun min_from :: "('a \<Rightarrow> 'k::linorder) \<Rightarrow> 'a \<Rightarrow> 'a list \<Rightarrow> 'a" where
  "min_from key best [] = best"
| "min_from key best (x # xs) = min_from key (if key x < key best then x else best) xs"

definition py_min :: "('a \<Rightarrow> 'k::linorder) \<Rightarrow> 'a list \<Rightarrow> error + 'a" where
  "py_min key xs = (case xs of [] \<Rightarrow> Inl ValueError | x # rest \<Rightarrow> Inr (min_from key x rest))"

definition station_query ::
  "real \<Rightarrow> real \<Rightarrow> string \<Rightarrow> string \<Rightarrow> string \<Rightarrow> real \<Rightarrow> station_params" where
  "station_query lat lon start end datasetid km =
     (case bbox_from_point lat lon km of
        (minlon, minlat, maxlon, maxlat) \<Rightarrow>
          \<lparr>sp_datasetid = datasetid, sp_extent = (minlat, minlon, maxlat, maxlon),
           sp_startdate = start, sp_enddate = end, sp_limit = 1000\<rparr>)"

definition find_nearest_station ::
  "(station_params, station) session \<Rightarrow> real \<Rightarrow> real \<Rightarrow> string \<Rightarrow> string \<Rightarrow> string \<Rightarrow> real \<Rightarrow>
   station_params event list \<Rightarrow> (error + located_station option) \<times> station_params event list"
where
  "find_nearest_station session lat lon start end datasetid km tr =
     (case ncei_request session (station_query lat lon start end datasetid km) tr of
        (Inl e, tr') \<Rightarrow> (Inl e, tr')
      | (Inr js, tr') \<Rightarrow>
          (let results = results_of js
           in if results = [] then (Inr None, tr')
              else (case py_min (\<lambda>s. haversine_km lat lon (latitude s) (longitude s)) results of
                      Inl e \<Rightarrow> (Inl e, tr')
                    | Inr best \<Rightarrow>
                        (Inr (Some (station.extend best
                           (located_station.fields
                              (haversine_km lat lon (latitude best) (longitude best))))), tr'))))"

subsection \<open>\<open>fetch_daily_chunked\<close>\<close>

text \<open>
  A row of a chunk response, as the API sends it. The parameters of a data request are
  the \<open>params\<close> dictionary of the loop body; the token travels in a header and is left
  out.
\<close>

record 'v observation =
  obs_date :: string
  obs_datatype :: string
  obs_station :: string
  obs_attributes :: string
  obs_value :: "'v option"

record data_params =
  p_datasetid :: string
  p_stationid :: string
  p_startdate :: int
  p_enddate :: int
  p_units :: string
  p_limit :: nat
  p_datatypeid :: "string list"

text \<open>
  Calendar dates are day numbers (days since the epoch). pandas keeps a \<open>Timestamp\<close> and
  a \<open>Timedelta\<close> as a count of nanoseconds in a signed 64-bit integer, whose lowest
  value stands for \<open>NaT\<close> (nanoseconds are the resolution of pandas 1 and 2). So
  \<open>pd.Timedelta(days=n)\<close> raises \<open>OutOfBoundsTimedelta\<close> unless \<open>n\<close> days fit, and a
  timestamp plus a timedelta raises \<open>OutOfBoundsDatetime\<close> unless the midnight of the
  resulting day fits. \<open>pd.to_datetime(start)\<close> raises likewise for a date that does not
  fit.
\<close>

definition ns_per_day :: int where
  "ns_per_day = 86400 * 1000000000"

definition int64_ok :: "int \<Rightarrow> bool" where
  "int64_ok v = (- (2 ^ 63) < v \<and> v < 2 ^ 63)"

definition timedelta_ok :: "int \<Rightarrow> bool" where
  "timedelta_ok n = int64_ok (n * ns_per_day)"

definition timestamp_ok :: "int \<Rightarrow> bool" where
  "timestamp_ok d = int64_ok (d * ns_per_day)"

text \<open>
  \<^verbatim>\<open>
  current = start_dt
  while current <= end_dt:
      chunk_end = min(current + pd.Timedelta(days=chunk_days-1), end_dt)
      params = {...}
      try:
          js = ncei_request("data", params, token, timeout=(10,120), session=session)
          res = js.get("results", []) if isinstance(js, dict) else []
          if res: frames.append(pd.DataFrame(res))
      except Exception as e:
          print(...)
      current = chunk_end + pd.Timedelta(days=1)
  \<close>
  The two date additions stand outside the \<open>try\<close>: when one overflows, the function
  raises, after the requests made so far. The loop may also run forever (with
  \<open>chunk_days = 0\<close> the cursor stays where it is), so it is a partial function: \<open>None\<close>
  is "does not return". It returns the error or the frames, together with \<open>calls\<close>, the
  parameters of each \<open>ncei_request\<close> call in order, and the trace.
\<close>

partial_function (option) chunk_loop ::
  "(data_params, 'v observation) session \<Rightarrow> string \<Rightarrow> string list \<Rightarrow> int \<Rightarrow> nat \<Rightarrow> int \<Rightarrow>
   int \<Rightarrow> 'v observation list list \<Rightarrow> data_params list \<Rightarrow> data_params event list \<Rightarrow>
   ((error + 'v observation list list) \<times> data_params list \<times> data_params event list) option"
where
  "chunk_loop session stationid datatypes chunk_days limit end_dt current frames calls tr =
     (if current \<le> end_dt then
        if \<not> timedelta_ok (chunk_days - 1) then Some (Inl OutOfBoundsTimedelta, calls, tr)
        else if \<not> timestamp_ok (current + (chunk_days - 1))
          then Some (Inl OutOfBoundsDatetime, calls, tr)
        else
          (let chunk_end = min (current + (chunk_days - 1)) end_dt;
               params = \<lparr>p_datasetid = ''GHCND'', p_stationid = stationid,
                         p_startdate = current, p_enddate = chunk_end,
                         p_units = ''standard'', p_limit = limit,
                         p_datatypeid = datatypes\<rparr>;
               (js, tr') = ncei_request session params tr;
               frames' = (case js of
                            Inl e \<Rightarrow> frames
                          | Inr js \<Rightarrow>
                              (let res = results_of js
                               in if res \<noteq> [] then frames @ [res] else frames))
           in if \<not> timestamp_ok (chunk_end + 1)
              then Some (Inl OutOfBoundsDatetime, calls @ [params], tr')
              else chunk_loop session stationid datatypes chunk_days limit end_dt
                     (chunk_end + 1) frames' (calls @ [params]) tr')
      else Some (Inr frames, calls, tr))"

text \<open>\<open>DataFrame.drop_duplicates()\<close>: of equal rows the first is kept, order is kept.\<close>

fun dedup_seen :: "'a list \<Rightarrow> 'a list \<Rightarrow> 'a list" where
  "dedup_seen seen [] = []"
| "dedup_seen seen (x # xs) =
     (if x \<in> set seen then dedup_seen seen xs else x # dedup_seen (x # seen) xs)"

definition drop_duplicates :: "'a list \<Rightarrow> 'a list" where
  "drop_duplicates xs = dedup_seen [] xs"

text \<open>
  \<^verbatim>\<open>pd.to_datetime(df["date"], utc=True, errors="coerce").dt.tz_convert(None).dt.normalize()\<close>
  The parser of pandas is a parameter \<open>to_datetime\<close>: it gives the instant in seconds
  since the epoch, or \<open>None\<close> (\<open>NaT\<close>) for a string it cannot parse or that does not fit.
  Normalising keeps the day.
\<close>

definition normalize_date :: "(string \<Rightarrow> int option) \<Rightarrow> 'v observation \<Rightarrow> int option" where
  "normalize_date to_datetime r = map_option (\<lambda>t. t div 86400) (to_datetime (obs_date r))"

text \<open>
  A row of the wide table: the date and, for each observation type, the cell (\<open>None\<close> is
  the empty cell).

  \<^verbatim>\<open>df.pivot_table(index="date", columns="datatype", values="value", aggfunc="first")\<close>
  groups the rows by (date, datatype), leaving out rows whose date is \<open>NaT\<close>; \<open>first\<close>
  takes the first value of a group that is not missing; a group with no value at all is
  dropped, and with it a date that has no other group; the index is sorted.
\<close>

record 'v daily_row =
  date :: int
  obs :: "string \<Rightarrow> 'v option"

definition first_value ::
  "(string \<Rightarrow> int option) \<Rightarrow> 'v observation list \<Rightarrow> int \<Rightarrow> string \<Rightarrow> 'v option" where
  "first_value to_datetime df d t =
     (case find (\<lambda>r. normalize_date to_datetime r = Some d \<and> obs_datatype r = t
                      \<and> obs_value r \<noteq> None) df of
        None \<Rightarrow> None
      | Some r \<Rightarrow> obs_value r)"

definition pivot_table :: "(string \<Rightarrow> int option) \<Rightarrow> 'v observation list \<Rightarrow> 'v daily_row list" where
  "pivot_table to_datetime df =
     map (\<lambda>d. \<lparr>date = d, obs = first_value to_datetime df d\<rparr>)
       (sort (remdups (List.map_filter
          (\<lambda>r. if obs_value r \<noteq> None then normalize_date to_datetime r else None) df)))"

text \<open>
  \<^verbatim>\<open>
  if not frames: return pd.DataFrame(columns=["date"])
  df = pd.concat(frames, ignore_index=True).drop_duplicates()
  df["date"] = ...
  df = df.pivot_table(...).reset_index()
  \<close>
\<close>

definition reshape :: "(string \<Rightarrow> int option) \<Rightarrow> 'v observation list list \<Rightarrow> 'v daily_row list" where
  "reshape to_datetime frames =
     (if frames = [] then []
      else pivot_table to_datetime (drop_duplicates (concat frames)))"

text \<open>
  \<open>start\<close> and \<open>end\<close> are given as the days their strings name;
  \<open>pd.to_datetime(...).normalize()\<close> raises for one that is no timestamp.
\<close>

definition fetch_daily_chunked ::
  "(string \<Rightarrow> int option) \<Rightarrow> (data_params, 'v observation) session \<Rightarrow> string \<Rightarrow> int \<Rightarrow> int \<Rightarrow>
   string list \<Rightarrow> int \<Rightarrow> nat \<Rightarrow> data_params event list \<Rightarrow>
   ((error + 'v daily_row list) \<times> data_params list \<times> data_params event list) option"
where
  "fetch_daily_chunked to_datetime session stationid start_dt end_dt datatypes chunk_days limit tr =
     (if \<not> timestamp_ok start_dt \<or> \<not> timestamp_ok end_dt
      then Some (Inl OutOfBoundsDatetime, [], tr)
      else
        (case chunk_loop session stationid datatypes chunk_days limit end_dt start_dt [] [] tr of
           None \<Rightarrow> None
         | Some (Inl e, calls, tr') \<Rightarrow> Some (Inl e, calls, tr')
         | Some (Inr frames, calls, tr') \<Rightarrow> Some (Inr (reshape to_datetime frames), calls, tr')))"

subsection \<open>The join of \<open>main\<close>\<close>

text \<open>
  \<^verbatim>\<open>
  events["_event_dt"] = pd.to_datetime(
      events["date_modified"].fillna(events["date_created"]), utc=True, errors="coerce"
  ).dt.tz_convert(None)
  ...
  daily["noaa_date"] = pd.to_datetime(daily["date"], errors="coerce").dt.date
  events["_event_date"] = events["_event_dt"].dt.date
  joined = events.merge(daily, left_on="_event_date", right_on="noaa_date", how="left")
  \<close>
  A left merge keeps the left rows in order; a left row with matching right rows gives
  one output row per match, a left row with none gives one output row with the right
  columns empty.
\<close>

record 'a event_row =
  date_created :: "string option"
  date_modified :: "string option"
  other_columns :: 'a

definition event_dt :: "(string \<Rightarrow> int option) \<Rightarrow> 'a event_row \<Rightarrow> int option" where
  "event_dt to_datetime ev =
     (case (case date_modified ev of Some s \<Rightarrow> Some s | None \<Rightarrow> date_created ev) of
        None \<Rightarrow> None
      | Some s \<Rightarrow> to_datetime s)"

definition event_date :: "(string \<Rightarrow> int option) \<Rightarrow> 'a event_row \<Rightarrow> int option" where
  "event_date to_datetime ev = map_option (\<lambda>t. t div 86400) (event_dt to_datetime ev)"

definition noaa_date :: "'v daily_row \<Rightarrow> int option" where
  "noaa_date row = Some (date row)"

definition merge_left ::
  "('l \<Rightarrow> 'k) \<Rightarrow> ('r \<Rightarrow> 'k) \<Rightarrow> 'l list \<Rightarrow> 'r list \<Rightarrow> ('l \<times> 'r option) list" where
  "merge_left left_on right_on left right =
     concat (map (\<lambda>l. case filter (\<lambda>r. right_on r = left_on l) right of
                          [] \<Rightarrow> [(l, None)]
                        | ms \<Rightarrow> map (\<lambda>r. (l, Some r)) ms) left)"

definition join_events ::
  "(string \<Rightarrow> int option) \<Rightarrow> 'a event_row list \<Rightarrow> 'v daily_row list \<Rightarrow>
   ('a event_row \<times> 'v daily_row option) list" where
  "join_events to_datetime events daily =
     merge_left (event_date to_datetime) noaa_date events daily"


section \<open>The amenity pipeline: \<open>scripts/osm_infrastructure_join.py\<close>\<close>

text \<open>
  The Overpass query string is built from the amenity list, the radius and the point,
  which stand for it as the request parameters. An element of the answer has the fields
  the code reads.
\<close>

record overpass_params =
  op_amenities :: "string list"
  op_radius_m :: int
  op_lat :: real
  op_lon :: real

record element =
  el_type :: string
  el_id :: nat
  el_tag_name :: "string option"
  el_tag_amenity :: "string option"
  el_lat :: "real option"
  el_lon :: "real option"
  el_center :: "(real \<times> real) option"

record amenity =
  am_osm_id :: string
  am_name :: string
  am_amenity :: string
  am_lat :: "real option"
  am_lon :: "real option"

record tagged_amenity = amenity +
  perim_id :: nat

definition amenity_of :: "element \<Rightarrow> amenity" where
  "amenity_of el =
     \<lparr>am_osm_id = el_type el @ '':'' @ str_nat (el_id el),
      am_name = (case el_tag_name el of None \<Rightarrow> [] | Some n \<Rightarrow> n),
      am_amenity = (case el_tag_amenity el of None \<Rightarrow> [] | Some a \<Rightarrow> a),
      am_lat = (case el_lat el of Some y \<Rightarrow> Some y | None \<Rightarrow> map_option fst (el_center el)),
      am_lon = (case el_lon el of Some x \<Rightarrow> Some x | None \<Rightarrow> map_option snd (el_center el))\<rparr>"

text \<open>
  \<^verbatim>\<open>
  r = session.get(OVERPASS, params={"data": q})
  r.raise_for_status()
  data = r.json()
  rows = []
  for el in data.get("elements", []): rows.append({...})
  return rows
  \<close>
  No exception is caught here.
\<close>

definition query_overpass ::
  "(overpass_params, element) session \<Rightarrow> string list \<Rightarrow> real \<Rightarrow> real \<Rightarrow> int \<Rightarrow>
   overpass_params event list \<Rightarrow> (error + amenity list) \<times> overpass_params event list"
where
  "query_overpass session amenities lat lon radius_m tr =
     (let q = \<lparr>op_amenities = amenities, op_radius_m = radius_m, op_lat = lat, op_lon = lon\<rparr>;
          tr' = tr @ [GET q]
      in case session (gets tr) q of
           Timeout \<Rightarrow> (Inl ReadTimeout, tr')
         | ConnFail \<Rightarrow> (Inl ConnectionError, tr')
         | Fails \<Rightarrow> (Inl OtherException, tr')
         | Returns r \<Rightarrow>
             (case raise_for_status r of
                Inl e \<Rightarrow> (Inl e, tr')
              | Inr _ \<Rightarrow>
                  (case json_body r of
                     None \<Rightarrow> (Inl JSONDecodeError, tr')
                   | Some JOther \<Rightarrow> (Inl AttributeError, tr')
                   | Some (JDict els) \<Rightarrow>
                       (Inr (map amenity_of (case els of None \<Rightarrow> [] | Some es \<Rightarrow> es)), tr'))))"

text \<open>
  The loop of \<open>main\<close> over the centroids \<open>(perim_id, lat, lon)\<close>:
  \<^verbatim>\<open>
  for perim_id, lat, lon in centroids:
      try:
          rows = query_overpass(amenities, lat, lon, radius_m=radius_m, session=session)
          for r in rows: r["perim_id"] = perim_id
          all_rows.extend(rows)
          time.sleep(1.2)  # be nice to Overpass
      except Exception as e:
          print(...)
  \<close>
\<close>

fun query_perimeters ::
  "(overpass_params, element) session \<Rightarrow> string list \<Rightarrow> int \<Rightarrow> (nat \<times> real \<times> real) list \<Rightarrow>
   tagged_amenity list \<Rightarrow> overpass_params event list \<Rightarrow>
   tagged_amenity list \<times> overpass_params event list"
where
  "query_perimeters session amenities radius_m [] all_rows tr = (all_rows, tr)"
| "query_perimeters session amenities radius_m ((pid, lat, lon) # rest) all_rows tr =
     (case query_overpass session amenities lat lon radius_m tr of
        (Inr rows, tr') \<Rightarrow>
          query_perimeters session amenities radius_m rest
            (all_rows @ map (\<lambda>r. amenity.extend r (tagged_amenity.fields pid)) rows)
            (tr' @ [SLEEP (12 / 10)])
      | (Inl e, tr') \<Rightarrow>
          query_perimeters session amenities radius_m rest all_rows tr')"


section \<open>Vocabulary of the properties\<close>

text \<open>An outcome that the manual retry loop of \<open>ncei_request\<close> retries, and what it raises.\<close>

definition transient :: "'r outcome \<Rightarrow> bool" where
  "transient out = (out = Timeout \<or> out = ConnFail)"

definition raised_by :: "'r outcome \<Rightarrow> error" where
  "raised_by out =
     (case out of Timeout \<Rightarrow> ReadTimeout | ConnFail \<Rightarrow> ConnectionError | _ \<Rightarrow> OtherException)"

text \<open>The parameters of the GETs of a trace, in order.\<close>

fun requested :: "'p event list \<Rightarrow> 'p list" where
  "requested [] = []"
| "requested (GET p # es) = p # requested es"
| "requested (SLEEP d # es) = requested es"

text \<open>The date window of a data request, and the frames after one loop iteration.\<close>

definition window :: "data_params \<Rightarrow> int \<times> int" where
  "window p = (p_startdate p, p_enddate p)"

definition next_frames ::
  "'v observation list list \<Rightarrow> error + 'v observation json \<Rightarrow> 'v observation list list" where
  "next_frames frames js =
     (case js of
        Inl e \<Rightarrow> frames
      | Inr js \<Rightarrow> (let res = results_of js in if res \<noteq> [] then frames @ [res] else frames))"

text \<open>
  The frames received for a list of requests made one after the other: for each request
  in turn its non-empty result list, nothing for a request that fails or brings no row.
\<close>

fun replay ::
  "(data_params, 'v observation) session \<Rightarrow> data_params list \<Rightarrow> data_params event list \<Rightarrow>
   'v observation list list \<times> data_params event list" where
  "replay session [] tr = ([], tr)"
| "replay session (p # ps) tr =
     (case ncei_request session p tr of
        (js, tr1) \<Rightarrow>
          (case replay session ps tr1 of
             (fs, tr2) \<Rightarrow> (next_frames [] js @ fs, tr2)))"

text \<open>
  \<open>tiling C a b ws\<close>: the windows \<open>ws\<close> follow one another from \<open>a\<close> to \<open>b\<close> without gap
  or overlap, each non-empty and of at most \<open>C\<close> days.
\<close>

fun tiling :: "int \<Rightarrow> int \<Rightarrow> int \<Rightarrow> (int \<times> int) list \<Rightarrow> bool" where
  "tiling C a b [] = (b < a)"
| "tiling C a b ((s, e) # ws) =
     (s = a \<and> a \<le> e \<and> e \<le> b \<and> e - a + 1 \<le> C \<and> tiling C (e + 1) b ws)"

text \<open>
  The values seen for a date and an observation type, in the order of the rows, and the
  first of a list of values.
\<close>

definition seen_values ::
  "(string \<Rightarrow> int option) \<Rightarrow> 'v observation list \<Rightarrow> int \<Rightarrow> string \<Rightarrow> 'v list" where
  "seen_values to_datetime df d t =
     List.map_filter obs_value
       (filter (\<lambda>r. normalize_date to_datetime r = Some d \<and> obs_datatype r = t) df)"

definition first_seen :: "'v list \<Rightarrow> 'v option" where
  "first_seen vs = (case vs of [] \<Rightarrow> None | v # _ \<Rightarrow> Some v)"


section \<open>Example inputs\<close>

text \<open>Sessions for \<open>ncei_request\<close>: the parameters and the rows do not matter, so both are \<open>unit\<close>.\<close>

definition recovering_session :: "(unit, unit) session" where
  "recovering_session n p =
     (if n = 0 then Timeout
      else if n = 1 then ConnFail
      else Returns \<lparr>status_code = 200, body_text = ''{}'', json_body = Some (JDict None)\<rparr>)"

definition unreachable_session :: "(unit, unit) session" where
  "unreachable_session n p = (if n = 1 then Timeout else ConnFail)"

definition unavailable_session :: "(unit, unit) session" where
  "unavailable_session n p =
     (if n = 0 then Timeout
      else Returns \<lparr>status_code = 503, body_text = ''Service Unavailable'', json_body = None\<rparr>)"

definition multiple_choices_session :: "(unit, unit) session" where
  "multiple_choices_session n p =
     Returns \<lparr>status_code = 300, body_text = ''Multiple Choices'', json_body = None\<rparr>"

text \<open>
  A station that answers every data request with the same rows: an exact duplicate, two
  readings of one type on one day, a row with an unreadable date.
\<close>

definition demo_to_datetime :: "string \<Rightarrow> int option" where
  "demo_to_datetime s =
     (if s = ''1970-01-01T00:00:00'' then Some 0
      else if s = ''1970-01-01T12:00:00'' then Some 43200
      else if s = ''1970-01-02T00:00:00'' then Some 86400
      else if s = ''1970-01-03T00:00:00'' then Some 172800
      else None)"

definition demo_obs :: "string \<Rightarrow> string \<Rightarrow> nat option \<Rightarrow> nat observation" where
  "demo_obs d t v = \<lparr>obs_date = d, obs_datatype = t, obs_station = ''GHCND:X'',
                     obs_attributes = '',,W,'', obs_value = v\<rparr>"

definition demo_records :: "nat observation list" where
  "demo_records =
     [demo_obs ''1970-01-01T00:00:00'' ''TMAX'' (Some 50),
      demo_obs ''1970-01-01T00:00:00'' ''TMAX'' (Some 50),
      demo_obs ''1970-01-01T12:00:00'' ''TMAX'' (Some 60),
      demo_obs ''1970-01-02T00:00:00'' ''TMIN'' (Some 30),
      demo_obs ''not a date'' ''PRCP'' (Some 1)]"

text \<open>Rows of which the first of a day and type has no value.\<close>

definition gap_records :: "nat observation list" where
  "gap_records =
     [demo_obs ''1970-01-01T00:00:00'' ''TMAX'' None,
      demo_obs ''1970-01-01T12:00:00'' ''TMAX'' (Some 60),
      demo_obs ''1970-01-02T00:00:00'' ''TMIN'' None]"

definition demo_session :: "(data_params, nat observation) session" where
  "demo_session n p =
     Returns \<lparr>status_code = 200, body_text = [], json_body = Some (JDict (Some demo_records))\<rparr>"

definition demo_params :: "int \<Rightarrow> int \<Rightarrow> data_params" where
  "demo_params s e = \<lparr>p_datasetid = ''GHCND'', p_stationid = ''GHCND:X'',
                       p_startdate = s, p_enddate = e,
                       p_units = ''standard'', p_limit = 1000,
                       p_datatypeid = [''TMAX'', ''TMIN'', ''PRCP'']\<rparr>"

text \<open>Two events, on the first and on the third day, and observations for the first day only.\<close>

definition demo_events :: "unit event_row list" where
  "demo_events =
     [\<lparr>date_created = Some ''1970-01-02T00:00:00'', date_modified = Some ''1970-01-01T12:00:00'',
       other_columns = ()\<rparr>,
      \<lparr>date_created = Some ''1970-01-03T00:00:00'', date_modified = None, other_columns = ()\<rparr>]"

definition demo_daily_row :: "nat daily_row" where
  "demo_daily_row = \<lparr>date = 0, obs = (\<lambda>t. if t = ''TMAX'' then Some 50 else None)\<rparr>"

text \<open>Two stations at the same place, which is also the origin of the search.\<close>

definition station_a :: station where
  "station_a = \<lparr>station_id = ''GHCND:A'', station_name = ''A'', latitude = 10, longitude = 20\<rparr>"

definition station_b :: station where
  "station_b = \<lparr>station_id = ''GHCND:B'', station_name = ''B'', latitude = 10, longitude = 20\<rparr>"

definition two_station_session :: "(station_params, station) session" where
  "two_station_session n p =
     Returns \<lparr>status_code = 200, body_text = [],
              json_body = Some (JDict (Some [station_a, station_b]))\<rparr>"

text \<open>An Overpass service that rejects the first query and answers the second with no element.\<close>

definition rejecting_session :: "(overpass_params, element) session" where
  "rejecting_session n p =
     (if n = 0
      then Returns \<lparr>status_code = 400, body_text = ''Bad Request'', json_body = None\<rparr>
      else Returns \<lparr>status_code = 200, body_text = [], json_body = Some (JDict (Some []))\<rparr>)"

definition demo_query :: "real \<Rightarrow> real \<Rightarrow> overpass_params" where
  "demo_query lat lon =
     \<lparr>op_amenities = [''school''], op_radius_m = 5000, op_lat = lat, op_lon = lon\<rparr>"


section \<open>\<open>strip_srid\<close>\<close>

lemma split1_shorter:
  "sep \<in> set s \<Longrightarrow> length (split1 sep s ! 1) < length s"
proof -
  assume a: "sep \<in> set s"
  have "length (dropWhile (\<lambda>c. c \<noteq> sep) s) \<le> length s"
    by (rule length_dropWhile_le)
  moreover have "dropWhile (\<lambda>c. c \<noteq> sep) s \<noteq> []"
    using a by (auto simp: dropWhile_eq_Nil_conv)
  ultimately show ?thesis
    using a by (cases "dropWhile (\<lambda>c. c \<noteq> sep) s") (simp_all add: split1_def)
qed

lemma strip_srid_result_shorter:
  assumes "startswith g ''SRID=''" and "strip_srid (Str g) = Inr (Str h)"
  shows "length h < length g"
proof (cases "CHR '';'' \<in> set g")
  case True
  then have "h = split1 CHR '';'' g ! 1"
    using assms by (simp add: split1_def Let_def)
  then show ?thesis using split1_shorter [OF True] by simp
next
  case False
  then show ?thesis using assms by (simp add: split1_def Let_def)
qed

text \<open>
  C4, as the code has it. A string without the prefix is returned unchanged. Stripping
  twice equals stripping once exactly when the first call raises, or returns a string
  that does not itself start with \<open>SRID=\<close> (in particular whenever the input has no
  prefix).
\<close>

theorem strip_srid_idempotent_iff:
  "(\<not> startswith g ''SRID='' \<longrightarrow> strip_srid (Str g) = Inr (Str g)) \<and>
   (strip_srid_twice (Str g) = strip_srid (Str g) \<longleftrightarrow>
      (case strip_srid (Str g) of
         Inl e \<Rightarrow> True
       | Inr Missing \<Rightarrow> True
       | Inr (Str h) \<Rightarrow> \<not> startswith h ''SRID=''))"
proof (intro conjI impI)
  assume "\<not> startswith g ''SRID=''"
  then show "strip_srid (Str g) = Inr (Str g)" by simp
next
  show "strip_srid_twice (Str g) = strip_srid (Str g) \<longleftrightarrow>
      (case strip_srid (Str g) of
         Inl e \<Rightarrow> True
       | Inr Missing \<Rightarrow> True
       | Inr (Str h) \<Rightarrow> \<not> startswith h ''SRID='')"
  proof (cases "strip_srid (Str g)")
    case (Inl e)
    then show ?thesis by (simp add: strip_srid_twice_def)
  next
    case (Inr c)
    show ?thesis
    proof (cases c)
      case Missing
      then show ?thesis using Inr by (simp add: strip_srid_twice_def)
    next
      case (Str h)
      show ?thesis
      proof (cases "startswith h ''SRID=''")
        case False
        then show ?thesis using Inr Str by (simp add: strip_srid_twice_def)
      next
        case True
        have "strip_srid (Str h) \<noteq> Inr (Str h)"
          using strip_srid_result_shorter [OF True, of h] by (auto simp del: strip_srid.simps)
        then show ?thesis using Inr Str True by (simp add: strip_srid_twice_def)
      qed
    qed
  qed
qed

theorem strip_srid_idempotent_iff_witness:
  "\<not> startswith ''POINT (1 2)'' ''SRID='' \<and>
   strip_srid (Str ''POINT (1 2)'') = Inr (Str ''POINT (1 2)'') \<and>
   strip_srid (Str ''SRID=4326;POINT (1 2)'') = Inr (Str ''POINT (1 2)'') \<and>
   strip_srid_twice (Str ''SRID=4326;POINT (1 2)'') = strip_srid (Str ''SRID=4326;POINT (1 2)'')"
  using strip_srid_idempotent_iff [of "''POINT (1 2)''"]
    strip_srid_idempotent_iff [of "''SRID=4326;POINT (1 2)''"]
  by (simp add: startswith_def split1_def)

text \<open>
  C4 as stated, idempotence on every string, fails on a string that carries the prefix
  twice: the first call strips one prefix, the second strips the next.
\<close>

theorem strip_srid_not_idempotent:
  "strip_srid_twice (Str ''SRID=1;SRID=2;POINT (1 2)'')
     \<noteq> strip_srid (Str ''SRID=1;SRID=2;POINT (1 2)'')"
  by (simp add: strip_srid_twice_def startswith_def split1_def)

lemma strip_srid_without_separator:
  "strip_srid (Str ''SRID=4326'') = Inl IndexError"
  by (simp add: startswith_def split1_def)


section \<open>\<open>ncei_request\<close>\<close>

lemma str_nat_examples: "str_nat 404 = ''404''" "str_nat 7 = ''7''" "str_nat 1000 = ''1000''"
  by simp_all

declare str_nat.simps [simp del]

lemma attempts_upt: "[0..<manual_retries + 1] = [0, 1, 2]"
  by (simp add: manual_retries_def upt_rec)

lemma gets_simps [simp]:
  "gets [] = 0"
  "gets (GET p # es) = Suc (gets es)"
  "gets (SLEEP d # es) = gets es"
  "gets (tr @ es) = gets tr + gets es"
  by (simp_all add: gets_def)

lemma attempt_transient:
  "transient (session (gets tr) params) \<Longrightarrow> i < manual_retries \<Longrightarrow>
   ncei_attempts session params (i # rest) tr =
   ncei_attempts session params rest (tr @ [GET params, SLEEP (2 * (of_nat i + 1))])"
  by (auto simp: transient_def)

lemma attempt_http_failure:
  "session (gets tr) params = Returns r \<Longrightarrow> 400 \<le> status_code r \<Longrightarrow> status_code r < 600 \<Longrightarrow>
   ncei_attempts session params (i # rest) tr =
     (Inl (RuntimeError (http_failure_message r)), tr @ [GET params])"
  by (simp add: raise_for_status_def)

text \<open>
  C5. With \<open>a0, a1, a2\<close> the outcomes of the next three GETs: a read timeout or a
  connection error reaches the caller exactly when all three attempts fail with one of
  them, and then it is the one of the third attempt; after a failed first attempt the
  call sleeps \<open>2 \<times> (0 + 1)\<close> seconds and tries again, after a failed second attempt it
  sleeps \<open>2 \<times> (1 + 1)\<close> seconds and tries a last time; nothing else is requested or
  slept.
\<close>

theorem ncei_request_retry:
  "(fst (ncei_request session params tr) \<in> {Inl ReadTimeout, Inl ConnectionError} \<longleftrightarrow>
      transient (session (gets tr) params) \<and>
      transient (session (gets tr + 1) params) \<and>
      transient (session (gets tr + 2) params)) \<and>
   (transient (session (gets tr) params) \<and>
      transient (session (gets tr + 1) params) \<and>
      transient (session (gets tr + 2) params) \<longrightarrow>
      fst (ncei_request session params tr) = Inl (raised_by (session (gets tr + 2) params))) \<and>
   snd (ncei_request session params tr) =
     tr @ (if \<not> transient (session (gets tr) params) then [GET params]
           else if \<not> transient (session (gets tr + 1) params)
             then [GET params, SLEEP (2 * (0 + 1)), GET params]
           else [GET params, SLEEP (2 * (0 + 1)), GET params, SLEEP (2 * (1 + 1)), GET params])"
  unfolding ncei_request_def attempts_upt
  by (cases "session (gets tr) params"; cases "session (gets tr + 1) params";
      cases "session (gets tr + 2) params";
      simp add: transient_def raised_by_def manual_retries_def
           split: sum.splits option.splits)

theorem ncei_request_retry_witness:
  "fst (ncei_request recovering_session () []) \<notin> {Inl ReadTimeout, Inl ConnectionError} \<and>
   snd (ncei_request recovering_session () []) = [GET (), SLEEP 2, GET (), SLEEP 4, GET ()] \<and>
   fst (ncei_request unreachable_session () []) = Inl ConnectionError \<and>
   snd (ncei_request unreachable_session () []) = [GET (), SLEEP 2, GET (), SLEEP 4, GET ()]"
  using ncei_request_retry [of recovering_session "()" "[]"]
    ncei_request_retry [of unreachable_session "()" "[]"]
  by (simp add: recovering_session_def unreachable_session_def transient_def raised_by_def)

declare ncei_attempts.simps [simp del]

lemma attempt_passes:
  "session (gets tr) params = Returns r \<Longrightarrow> \<not> (400 \<le> status_code r \<and> status_code r < 600) \<Longrightarrow>
   ncei_attempts session params (i # rest) tr =
     ((case json_body r of None \<Rightarrow> Inl JSONDecodeError | Some js \<Rightarrow> Inr js), tr @ [GET params])"
  by (auto simp: ncei_attempts.simps raise_for_status_def split: option.splits)

lemma ncei_request_first_response:
  assumes "k \<le> manual_retries"
    and "\<forall>j<k. transient (session (gets tr + j) params)"
    and "session (gets tr + k) params = Returns r"
  shows "\<exists>tr1 rest. gets tr1 = gets tr + k \<and>
           ncei_request session params tr = ncei_attempts session params (k # rest) tr1
           \<and> session (gets tr1) params = Returns r"
proof -
  have k: "k = 0 \<or> k = 1 \<or> k = 2"
    using assms(1) by (auto simp: manual_retries_def)
  then show ?thesis
  proof (elim disjE)
    assume "k = 0"
    then show ?thesis
      unfolding ncei_request_def attempts_upt
      using assms(3) by (intro exI [of _ tr] exI [of _ "[1, 2]"]) simp
  next
    assume k1: "k = 1"
    have t0: "transient (session (gets tr) params)"
      using assms(2) k1 by (auto dest: spec [of _ 0])
    show ?thesis
      unfolding ncei_request_def attempts_upt
      using assms(3) k1 t0
      by (intro exI [of _ "tr @ [GET params, SLEEP (2 * (of_nat 0 + 1))]"] exI [of _ "[2]"])
         (simp add: attempt_transient manual_retries_def)
  next
    assume k2: "k = 2"
    have t0: "transient (session (gets tr) params)"
      using assms(2) k2 by (auto dest: spec [of _ 0])
    have t1: "transient (session (Suc (gets tr)) params)"
      using assms(2) k2 by (auto dest: spec [of _ 1])
    show ?thesis
      unfolding ncei_request_def attempts_upt
      using assms(3) k2 t0 t1
      by (intro exI [of _ "tr @ [GET params, SLEEP (2 * (of_nat 0 + 1)), GET params,
                                 SLEEP (2 * (of_nat 1 + 1))]"] exI [of _ "[]"])
         (simp add: attempt_transient manual_retries_def)
  qed
qed

lemma requested_append [simp]: "requested (tr @ es) = requested tr @ requested es"
  by (induction tr rule: requested.induct) simp_all

lemma ncei_request_requested:
  "\<exists>evs k. snd (ncei_request session params tr) = tr @ evs \<and>
           requested evs = replicate k params \<and> 1 \<le> k \<and> k \<le> 3"
proof -
  have "snd (ncei_request session params tr) = tr @ [GET params] \<or>
        snd (ncei_request session params tr) = tr @ [GET params, SLEEP 2, GET params] \<or>
        snd (ncei_request session params tr)
          = tr @ [GET params, SLEEP 2, GET params, SLEEP 4, GET params]"
    unfolding ncei_request_def attempts_upt
    by (cases "session (gets tr) params"; cases "session (gets tr + 1) params";
        cases "session (gets tr + 2) params";
        simp add: ncei_attempts.simps manual_retries_def split: sum.splits option.splits)
  then show ?thesis
  proof (elim disjE)
    assume "snd (ncei_request session params tr) = tr @ [GET params]"
    then show ?thesis
      by (intro exI [of _ "[GET params]"] exI [of _ 1]) simp
  next
    assume "snd (ncei_request session params tr) = tr @ [GET params, SLEEP 2, GET params]"
    then show ?thesis
      by (intro exI [of _ "[GET params, SLEEP 2, GET params]"] exI [of _ 2])
         (simp add: numeral_2_eq_2)
  next
    assume "snd (ncei_request session params tr)
          = tr @ [GET params, SLEEP 2, GET params, SLEEP 4, GET params]"
    then show ?thesis
      by (intro exI [of _ "[GET params, SLEEP 2, GET params, SLEEP 4, GET params]"] exI [of _ 3])
         (simp add: numeral_3_eq_3)
  qed
qed

text \<open>
  C6, as the code has it. When the first response of the call, after at most
  \<open>manual_retries\<close> retried attempts, has a 4xx or 5xx status, the call raises one
  \<open>RuntimeError\<close> whose message holds the status code and the first 400 characters of
  the body, and issues no further GET. A response with any other status is not
  converted: the call returns its JSON body, or fails to decode it.
\<close>

theorem ncei_request_http_failure:
  assumes "k \<le> manual_retries"
    and "\<forall>j<k. transient (session (gets tr + j) params)"
    and "session (gets tr + k) params = Returns r"
  shows "(400 \<le> status_code r \<and> status_code r < 600 \<longrightarrow>
            fst (ncei_request session params tr) =
              Inl (RuntimeError (''NCEI HTTP '' @ str_nat (status_code r) @ '': ''
                                 @ take 400 (body_text r))) \<and>
            length (take 400 (body_text r)) \<le> 400 \<and>
            gets (snd (ncei_request session params tr)) = gets tr + k + 1) \<and>
         (\<not> (400 \<le> status_code r \<and> status_code r < 600) \<longrightarrow>
            fst (ncei_request session params tr) =
              (case json_body r of None \<Rightarrow> Inl JSONDecodeError | Some js \<Rightarrow> Inr js))"
proof -
  from ncei_request_first_response [of k session tr params r] assms obtain tr1 rest where
    g: "gets tr1 = gets tr + k"
    and run: "ncei_request session params tr = ncei_attempts session params (k # rest) tr1"
    and r: "session (gets tr1) params = Returns r"
    by blast
  show ?thesis
    unfolding run
    using r g by (auto simp: attempt_http_failure attempt_passes http_failure_message_def)
qed

theorem ncei_request_http_failure_witness:
  "fst (ncei_request unavailable_session () []) =
     Inl (RuntimeError ''NCEI HTTP 503: Service Unavailable'') \<and>
   gets (snd (ncei_request unavailable_session () [])) = 2"
  using ncei_request_http_failure [of 1 unavailable_session "[]" "()"
      "\<lparr>status_code = 503, body_text = ''Service Unavailable'', json_body = None\<rparr>"]
  by (simp add: unavailable_session_def manual_retries_def transient_def str_nat.simps)

text \<open>
  C6 as stated, for every status outside 2xx, fails on a 3xx response:
  \<open>raise_for_status\<close> lets it pass, and the call goes on to parse the body.
\<close>

theorem ncei_request_passes_3xx:
  "fst (ncei_request multiple_choices_session () []) = Inl JSONDecodeError"
  unfolding ncei_request_def attempts_upt
  by (simp add: ncei_attempts.simps multiple_choices_session_def raise_for_status_def)


section \<open>\<open>haversine_km\<close>\<close>



text \<open>The argument of \<open>sqrt\<close> and \<open>asin\<close> stays in their domain, whatever the coordinates.\<close>

lemma sin_half_sq: "(sin (t / 2))\<^sup>2 = (1 - cos t) / 2" for t :: real
  using cos_double_sin [of "t / 2"] by simp

lemma lagrange_identity:
  fixes s1 c1 s2 c2 k :: real
  shows "(s1 * s2 + c1 * c2 * k)\<^sup>2 + (s1 * c2 * k - c1 * s2)\<^sup>2
         = (s1\<^sup>2 + c1\<^sup>2) * (s2\<^sup>2 + c2\<^sup>2 * k\<^sup>2)"
  by (simp add: power2_eq_square algebra_simps)

lemma haversine_arg_range:
  fixes p1 p2 l :: real
  defines "a \<equiv> (sin ((p2 - p1) / 2))\<^sup>2 + cos p1 * cos p2 * (sin (l / 2))\<^sup>2"
  shows "0 \<le> a \<and> a \<le> 1"
proof -
  have h1: "(sin ((p2 - p1) / 2))\<^sup>2 = (1 - cos (p2 - p1)) / 2"
    by (rule sin_half_sq)
  have h2: "(sin (l / 2))\<^sup>2 = (1 - cos l) / 2"
    by (rule sin_half_sq)
  define k where "k = cos l"
  define d where "d = sin p1 * sin p2 + cos p1 * cos p2 * k"
  have a: "a = (1 - d) / 2"
    unfolding a_def h1 h2 d_def k_def by (simp add: cos_diff field_simps)
  have k: "k\<^sup>2 \<le> 1" unfolding k_def
    by (simp add: abs_square_le_1)
  have u1: "(sin p1)\<^sup>2 + (cos p1)\<^sup>2 = 1"
    by simp
  have "d\<^sup>2 + (sin p1 * cos p2 * k - cos p1 * sin p2)\<^sup>2
        = ((sin p1)\<^sup>2 + (cos p1)\<^sup>2) * ((sin p2)\<^sup>2 + (cos p2)\<^sup>2 * k\<^sup>2)"
    unfolding d_def by (rule lagrange_identity)
  also have "\<dots> = (sin p2)\<^sup>2 + (cos p2)\<^sup>2 * k\<^sup>2" by (simp only: u1 mult_1)
  also have "\<dots> \<le> (sin p2)\<^sup>2 + (cos p2)\<^sup>2 * 1"
    using k by (intro add_left_mono mult_left_mono) simp_all
  also have "\<dots> = 1" by simp
  finally have "d\<^sup>2 + (sin p1 * cos p2 * k - cos p1 * sin p2)\<^sup>2 \<le> 1" .
  moreover have "0 \<le> (sin p1 * cos p2 * k - cos p1 * sin p2)\<^sup>2" by simp
  ultimately have "d\<^sup>2 \<le> 1" by linarith
  then have "\<bar>d\<bar> \<le> 1" by (simp add: abs_square_le_1)
  then show ?thesis unfolding a by auto
qed

lemma haversine_km_in_domain:
  "0 \<le> (sin (radians (lat2 - lat1) / 2))\<^sup>2
         + cos (radians lat1) * cos (radians lat2) * (sin (radians (lon2 - lon1) / 2))\<^sup>2 \<and>
   (sin (radians (lat2 - lat1) / 2))\<^sup>2
         + cos (radians lat1) * cos (radians lat2) * (sin (radians (lon2 - lon1) / 2))\<^sup>2 \<le> 1"
proof -
  have "radians (lat2 - lat1) = radians lat2 - radians lat1"
    by (simp add: radians_def left_diff_distrib)
  then show ?thesis
    using haversine_arg_range [of "radians lat2" "radians lat1" "radians (lon2 - lon1)"]
    by simp
qed


section \<open>\<open>find_nearest_station\<close>\<close>



lemma two_station_request:
  "ncei_request two_station_session p tr = (Inr (JDict (Some [station_a, station_b])), tr @ [GET p])"
  unfolding ncei_request_def attempts_upt
  by (simp add: ncei_attempts.simps two_station_session_def raise_for_status_def)

lemma haversine_km_self: "haversine_km lat lon lat lon = 0"
  by (simp add: haversine_km_def radians_def)

text \<open>On an exact tie the first station wins.\<close>

lemma find_nearest_station_tie:
  "fst (find_nearest_station two_station_session 10 20 ''1970-01-01'' ''1970-01-03'' ''GHCND'' 50 [])
   = Inr (Some \<lparr>station_id = ''GHCND:A'', station_name = ''A'', latitude = 10, longitude = 20,
                 dist_km = 0\<rparr>)"
  by (simp add: find_nearest_station_def two_station_request results_of_def py_min_def
      station_a_def station_b_def haversine_km_self station.extend_def located_station.fields_def)


section \<open>\<open>fetch_daily_chunked\<close>: the cursor loop\<close>

lemma ceiling_div_chunks:
  fixes n C :: int
  assumes "1 \<le> C"
  shows "\<lceil>real_of_int n / real_of_int C\<rceil> = (n + C - 1) div C"
proof -
  define q where "q = (n + C - 1) div C"
  define r where "r = (n + C - 1) mod C"
  have eq: "q * C + r = n + C - 1"
    by (simp add: q_def r_def)
  have r: "0 \<le> r" "r < C"
    using assms by (simp_all add: r_def)
  have le: "n \<le> q * C" and lt: "q * C - C < n"
    using eq r by linarith+
  have Cpos: "0 < real_of_int C" using assms by simp
  have "real_of_int (q * C - C) < real_of_int n"
    using lt by (simp only: of_int_less_iff)
  then have "(real_of_int q - 1) * real_of_int C < real_of_int n"
    by (simp add: algebra_simps)
  then have lower: "real_of_int q - 1 < real_of_int n / real_of_int C"
    using Cpos by (simp only: pos_less_divide_eq)
  have "real_of_int n \<le> real_of_int (q * C)"
    using le by (simp only: of_int_le_iff)
  then have "real_of_int n \<le> real_of_int q * real_of_int C"
    by simp
  then have upper: "real_of_int n / real_of_int C \<le> real_of_int q"
    using Cpos by (simp only: pos_divide_le_eq)
  have "\<lceil>real_of_int n / real_of_int C\<rceil> = q"
    using lower upper by (rule ceiling_unique)
  then show ?thesis by (simp only: q_def)
qed

lemma chunk_count_step:
  fixes C :: int
  assumes "1 \<le> C" "current \<le> end_dt"
  shows "nat ((end_dt - current + C) div C) =
         Suc (nat ((end_dt - (min (current + (C - 1)) end_dt + 1) + C) div C))"
proof (cases "current + (C - 1) \<le> end_dt")
  case True
  have "(end_dt - current + C) div C = (end_dt - current) div C + 1"
    using assms by simp
  moreover have "0 \<le> (end_dt - current) div C"
    using assms by (simp add: pos_imp_zdiv_nonneg_iff)
  ultimately show ?thesis using True by (simp add: min_def)
next
  case False
  then have m: "min (current + (C - 1)) end_dt = end_dt" by simp
  have "(end_dt - current + C) div C = (end_dt - current) div C + 1"
    using assms by simp
  moreover have "(end_dt - current) div C = 0"
    using assms False by simp
  moreover have "(C - 1) div C = 0"
    using assms by simp
  ultimately show ?thesis by (simp add: m)
qed







text \<open>
  The days that are timestamps, and the numbers of days that are timedeltas: from
  1677-09-22 to 2262-04-11, and up to 106751 days either way.
\<close>

lemma int64_days:
  "int64_ok (d * ns_per_day) \<longleftrightarrow> - 106751 \<le> d \<and> d \<le> 106751"
  by (auto simp: int64_ok_def ns_per_day_def)

lemma timestamp_ok_iff: "timestamp_ok d \<longleftrightarrow> - 106751 \<le> d \<and> d \<le> 106751"
  by (simp add: timestamp_ok_def int64_days)

lemma timedelta_ok_iff: "timedelta_ok n \<longleftrightarrow> - 106751 \<le> n \<and> n \<le> 106751"
  by (simp add: timedelta_ok_def int64_days)

text \<open>
  One induction for all that the loop does with a chunk size of at least one day: it
  ends, with a result or an out-of-bounds error; it makes no more requests than there
  are chunks; the cursor grows from request to request; the GETs of the trace are those
  of its requests. When no date addition can overflow it ends with the frames, and its
  requests tile the range.
\<close>

lemma chunk_loop_run:
  assumes C: "1 \<le> C"
  shows "\<exists>res new evs ks.
           chunk_loop session sid dts C limit end_dt current frames calls tr
             = Some (res, calls @ new, tr @ evs) \<and>
           length new \<le> nat ((end_dt - current + C) div C) \<and>
           sorted_wrt (<) (map p_startdate new) \<and> (\<forall>p\<in>set new. current \<le> p_startdate p) \<and>
           length ks = length new \<and> (\<forall>k\<in>set ks. 1 \<le> k \<and> k \<le> 3) \<and>
           requested evs = concat (map2 replicate ks new) \<and>
           (C - 1 \<le> 106751 \<and> - 106751 \<le> current \<and> end_dt + C - 1 \<le> 106751 \<and>
            end_dt + 1 \<le> 106751 \<longrightarrow>
              (\<exists>frames'. res = Inr frames') \<and>
              tiling C current end_dt (map window new) \<and>
              length new = nat ((end_dt - current + C) div C))"
proof (induction "nat (end_dt - current + 1)" arbitrary: current frames calls tr rule: less_induct)
  case less
  let ?fits = "C - 1 \<le> 106751 \<and> - 106751 \<le> current \<and> end_dt + C - 1 \<le> 106751 \<and>
               end_dt + 1 \<le> 106751"
  show ?case
  proof (cases "current \<le> end_dt")
    case False
    then have "(end_dt - current + C) div C \<le> (C - 1) div C"
      using C by (intro zdiv_mono1) simp_all
    moreover have "(C - 1) div C = 0"
      using C by simp
    ultimately have z: "nat ((end_dt - current + C) div C) = 0" by simp
    have "chunk_loop session sid dts C limit end_dt current frames calls tr
            = Some (Inr frames, calls @ [], tr @ [])"
      using False by (subst chunk_loop.simps) simp
    then show ?thesis
      using False z
      by (intro exI [of _ "Inr frames"] exI [of _ "[]"]) simp
  next
    case True
    define chunk_end where "chunk_end = min (current + (C - 1)) end_dt"
    have cnt: "nat ((end_dt - current + C) div C)
               = Suc (nat ((end_dt - (chunk_end + 1) + C) div C))"
      using chunk_count_step [OF C True] by (simp add: chunk_end_def)
    show ?thesis
    proof (cases "timedelta_ok (C - 1) \<and> timestamp_ok (current + (C - 1))")
      case False
      then have "\<exists>e. chunk_loop session sid dts C limit end_dt current frames calls tr
            = Some (Inl e, calls @ [], tr @ [])"
        using True by (subst chunk_loop.simps) auto
      then obtain e where
        "chunk_loop session sid dts C limit end_dt current frames calls tr
            = Some (Inl e, calls @ [], tr @ [])"
        by blast
      moreover have "\<not> ?fits"
        using False C True by (auto simp: timedelta_ok_iff timestamp_ok_iff)
      ultimately show ?thesis
        by (intro exI [of _ "Inl e"] exI [of _ "[]"]) simp
    next
      case ok: True
      define params where "params = \<lparr>p_datasetid = ''GHCND'', p_stationid = sid,
                         p_startdate = current, p_enddate = chunk_end,
                         p_units = ''standard'', p_limit = limit,
                         p_datatypeid = dts\<rparr>"
      obtain js tr1 where req: "ncei_request session params tr = (js, tr1)"
        by (cases "ncei_request session params tr")
      from ncei_request_requested [of session params tr] req
      obtain evs1 k where evs1: "tr1 = tr @ evs1" "requested evs1 = replicate k params"
        "1 \<le> k" "k \<le> 3"
        by auto
      have ce: "current \<le> chunk_end" "chunk_end \<le> end_dt" "chunk_end - current + 1 \<le> C"
        using C True by (auto simp: chunk_end_def)
      show ?thesis
      proof (cases "timestamp_ok (chunk_end + 1)")
        case False
        have "chunk_loop session sid dts C limit end_dt current frames calls tr
                = Some (Inl OutOfBoundsDatetime, calls @ [params], tr @ evs1)"
          using True ok req False evs1(1)
          by (subst chunk_loop.simps)
             (simp add: Let_def chunk_end_def [symmetric] params_def [symmetric])
        moreover have "\<not> ?fits"
          using False ce True by (auto simp: timestamp_ok_iff)
        moreover have "length [params] \<le> nat ((end_dt - current + C) div C)"
          using cnt by simp
        moreover have "length [k] = length [params]" "\<forall>k\<in>set [k]. 1 \<le> k \<and> k \<le> 3"
          "requested evs1 = concat (map2 replicate [k] [params])"
          "sorted_wrt (<) (map p_startdate [params])"
          "\<forall>p\<in>set [params]. current \<le> p_startdate p"
          using evs1 by (simp_all add: params_def)
        ultimately show ?thesis
          by (intro exI [of _ "Inl OutOfBoundsDatetime"] exI [of _ "[params]"]
              exI [of _ evs1] exI [of _ "[k]"]) blast
      next
        case nxt: True
        have "nat (end_dt - (chunk_end + 1) + 1) < nat (end_dt - current + 1)"
          using ce True by simp
        from less [OF this, of "next_frames frames js" "calls @ [params]" tr1]
        obtain res new evs ks where
          run: "chunk_loop session sid dts C limit end_dt (chunk_end + 1) (next_frames frames js)
                  (calls @ [params]) tr1 = Some (res, (calls @ [params]) @ new, tr1 @ evs)"
          and len: "length new \<le> nat ((end_dt - (chunk_end + 1) + C) div C)"
          and srt: "sorted_wrt (<) (map p_startdate new)"
          and low: "\<forall>p\<in>set new. chunk_end + 1 \<le> p_startdate p"
          and ks: "length ks = length new" "\<forall>k\<in>set ks. 1 \<le> k \<and> k \<le> 3"
          and evs: "requested evs = concat (map2 replicate ks new)"
          and fits: "C - 1 \<le> 106751 \<and> - 106751 \<le> chunk_end + 1 \<and> end_dt + C - 1 \<le> 106751 \<and>
                     end_dt + 1 \<le> 106751 \<longrightarrow>
                       (\<exists>frames'. res = Inr frames') \<and>
                       tiling C (chunk_end + 1) end_dt (map window new) \<and>
                       length new = nat ((end_dt - (chunk_end + 1) + C) div C)"
          by blast
        have step: "chunk_loop session sid dts C limit end_dt current frames calls tr
                    = Some (res, calls @ (params # new), tr @ (evs1 @ evs))"
          using True ok req nxt run evs1(1)
          by (subst chunk_loop.simps)
             (simp add: Let_def chunk_end_def [symmetric] params_def [symmetric] next_frames_def)
        have l: "length (params # new) \<le> nat ((end_dt - current + C) div C)"
          using len cnt by simp
        have s: "sorted_wrt (<) (map p_startdate (params # new))"
          "\<forall>p\<in>set (params # new). current \<le> p_startdate p"
          using srt low ce(1) by (auto simp: params_def)
        have k: "length (k # ks) = length (params # new)"
          "\<forall>k\<in>set (k # ks). 1 \<le> k \<and> k \<le> 3"
          "requested (evs1 @ evs) = concat (map2 replicate (k # ks) (params # new))"
          using ks evs evs1 by simp_all
        have f: "?fits \<longrightarrow>
              (\<exists>frames'. res = Inr frames') \<and>
              tiling C current end_dt (map window (params # new)) \<and>
              length (params # new) = nat ((end_dt - current + C) div C)"
        proof
          assume a: ?fits
          then have "C - 1 \<le> 106751 \<and> - 106751 \<le> chunk_end + 1 \<and> end_dt + C - 1 \<le> 106751 \<and>
                     end_dt + 1 \<le> 106751"
            using ce(1) by simp
          with fits have r: "\<exists>frames'. res = Inr frames'"
            and t: "tiling C (chunk_end + 1) end_dt (map window new)"
            and n: "length new = nat ((end_dt - (chunk_end + 1) + C) div C)"
            by blast+
          have "tiling C current end_dt (map window (params # new))"
            using t ce by (simp add: window_def params_def)
          then show "(\<exists>frames'. res = Inr frames') \<and>
              tiling C current end_dt (map window (params # new)) \<and>
              length (params # new) = nat ((end_dt - current + C) div C)"
            using r n cnt by simp
        qed
        show ?thesis
          using step l s k f
          by (intro exI [of _ res] exI [of _ "params # new"] exI [of _ "evs1 @ evs"]
              exI [of _ "k # ks"]) blast
      qed
    qed
  qed
qed

text \<open>When the loop ends with frames, they are what its requests received, in order.\<close>

lemma next_frames_append: "next_frames frames js = frames @ next_frames [] js"
  by (simp add: next_frames_def Let_def split: sum.splits)

lemma chunk_loop_frames_aux:
  assumes "chunk_loop session sid dts C limit end_dt current frames calls tr = Some y"
  shows "\<forall>fs cs t. y = (Inr fs, cs, t) \<longrightarrow>
          (\<exists>new. cs = calls @ new \<and>
               fs = frames @ fst (replay session new tr) \<and>
               t = snd (replay session new tr))"
  proof (rule chunk_loop.raw_induct
      [where P = "\<lambda>session sid dts C limit end_dt current frames calls tr y.
                    \<forall>fs cs t. y = (Inr fs, cs, t) \<longrightarrow>
                      (\<exists>new. cs = calls @ new \<and>
                         fs = frames @ fst (replay session new tr) \<and>
                         t = snd (replay session new tr))", OF _ assms])
    fix loop :: "(data_params, 'a observation) session \<Rightarrow> string \<Rightarrow> string list \<Rightarrow> int \<Rightarrow> nat \<Rightarrow> int \<Rightarrow>
      int \<Rightarrow> 'a observation list list \<Rightarrow> data_params list \<Rightarrow> data_params event list \<Rightarrow>
      ((error + 'a observation list list) \<times> data_params list \<times> data_params event list) option"
    fix session sid dts and C :: int and limit and end_dt current :: int and frames calls tr y
    assume IH: "\<And>session sid dts C limit end_dt current frames calls tr y.
                  loop session sid dts C limit end_dt current frames calls tr = Some y \<Longrightarrow>
                  \<forall>fs cs t. y = (Inr fs, cs, t) \<longrightarrow>
                    (\<exists>new. cs = calls @ new \<and>
                       fs = frames @ fst (replay session new tr) \<and>
                       t = snd (replay session new tr))"
      and body: "(if current \<le> end_dt then
        if \<not> timedelta_ok (C - 1) then Some (Inl OutOfBoundsTimedelta, calls, tr)
        else if \<not> timestamp_ok (current + (C - 1))
          then Some (Inl OutOfBoundsDatetime, calls, tr)
        else
          (let chunk_end = min (current + (C - 1)) end_dt;
               params = \<lparr>p_datasetid = ''GHCND'', p_stationid = sid,
                         p_startdate = current, p_enddate = chunk_end,
                         p_units = ''standard'', p_limit = limit,
                         p_datatypeid = dts\<rparr>;
               (js, tr') = ncei_request session params tr;
               frames' = (case js of
                            Inl e \<Rightarrow> frames
                          | Inr js \<Rightarrow>
                              (let res = results_of js
                               in if res \<noteq> [] then frames @ [res] else frames))
           in if \<not> timestamp_ok (chunk_end + 1)
              then Some (Inl OutOfBoundsDatetime, calls @ [params], tr')
              else loop session sid dts C limit end_dt
                     (chunk_end + 1) frames' (calls @ [params]) tr')
      else Some (Inr frames, calls, tr)) = Some y"
    show "\<forall>fs cs t. y = (Inr fs, cs, t) \<longrightarrow>
            (\<exists>new. cs = calls @ new \<and>
               fs = frames @ fst (replay session new tr) \<and>
               t = snd (replay session new tr))"
    proof (intro allI impI)
      fix fs cs t
      assume y: "y = (Inr fs, cs, t)"
      show "\<exists>new. cs = calls @ new \<and>
               fs = frames @ fst (replay session new tr) \<and>
               t = snd (replay session new tr)"
      proof (cases "current \<le> end_dt")
        case False
        then have "fs = frames" "cs = calls" "t = tr" using body y by simp_all
        then show ?thesis by (intro exI [of _ "[]"]) simp
      next
        case True
        define params where "params = \<lparr>p_datasetid = ''GHCND'', p_stationid = sid,
                         p_startdate = current, p_enddate = min (current + (C - 1)) end_dt,
                         p_units = ''standard'', p_limit = limit,
                         p_datatypeid = dts\<rparr>"
        obtain js tr1 where req: "ncei_request session params tr = (js, tr1)"
          by (cases "ncei_request session params tr")
        have rec: "loop session sid dts C limit end_dt (min (current + (C - 1)) end_dt + 1)
                     (next_frames frames js) (calls @ [params]) tr1 = Some y"
          using body y True req
          by (simp add: Let_def params_def [symmetric] next_frames_def split: if_splits)
        from IH [OF rec] y obtain new where
          new: "cs = (calls @ [params]) @ new"
            "fs = next_frames frames js @ fst (replay session new tr1)"
            "t = snd (replay session new tr1)"
          by blast
        have "fs = frames @ fst (replay session (params # new) tr)"
          "t = snd (replay session (params # new) tr)"
          using new(2,3) req next_frames_append [of frames js]
          by (simp_all split: prod.splits)
        then show ?thesis
          using new(1) by (intro exI [of _ "params # new"]) simp
      qed
    qed
  qed

lemma chunk_loop_frames:
  assumes "chunk_loop session sid dts C limit end_dt current frames calls tr
             = Some (Inr frames', calls', tr')"
  shows "\<exists>new. calls' = calls @ new \<and>
               frames' = frames @ fst (replay session new tr) \<and>
               tr' = snd (replay session new tr)"
  using chunk_loop_frames_aux [OF assms] by blast

text \<open>With a chunk size of zero the cursor stays where it is: the loop does not return.\<close>

lemma chunk_loop_stuck:
  assumes "chunk_loop session sid dts C limit end_dt current frames calls tr = Some y"
  shows "\<not> (C = 0 \<and> current \<le> end_dt \<and> - 106751 < current \<and> current \<le> 106751)"
proof (rule chunk_loop.raw_induct
    [where P = "\<lambda>session sid dts C limit end_dt current frames calls tr y.
                  \<not> (C = 0 \<and> current \<le> end_dt \<and> - 106751 < current \<and> current \<le> 106751)",
     OF _ assms])
  fix loop :: "(data_params, 'a observation) session \<Rightarrow> string \<Rightarrow> string list \<Rightarrow> int \<Rightarrow> nat \<Rightarrow> int \<Rightarrow>
      int \<Rightarrow> 'a observation list list \<Rightarrow> data_params list \<Rightarrow> data_params event list \<Rightarrow>
      ((error + 'a observation list list) \<times> data_params list \<times> data_params event list) option"
  fix session sid dts and C :: int and limit and end_dt current :: int and frames calls tr y
  assume IH: "\<And>session sid dts C limit end_dt current frames calls tr y.
                loop session sid dts C limit end_dt current frames calls tr = Some y \<Longrightarrow>
                \<not> (C = 0 \<and> current \<le> end_dt \<and> - 106751 < current \<and> current \<le> 106751)"
    and body: "(if current \<le> end_dt then
        if \<not> timedelta_ok (C - 1) then Some (Inl OutOfBoundsTimedelta, calls, tr)
        else if \<not> timestamp_ok (current + (C - 1))
          then Some (Inl OutOfBoundsDatetime, calls, tr)
        else
          (let chunk_end = min (current + (C - 1)) end_dt;
               params = \<lparr>p_datasetid = ''GHCND'', p_stationid = sid,
                         p_startdate = current, p_enddate = chunk_end,
                         p_units = ''standard'', p_limit = limit,
                         p_datatypeid = dts\<rparr>;
               (js, tr') = ncei_request session params tr;
               frames' = (case js of
                            Inl e \<Rightarrow> frames
                          | Inr js \<Rightarrow>
                              (let res = results_of js
                               in if res \<noteq> [] then frames @ [res] else frames))
           in if \<not> timestamp_ok (chunk_end + 1)
              then Some (Inl OutOfBoundsDatetime, calls @ [params], tr')
              else loop session sid dts C limit end_dt
                     (chunk_end + 1) frames' (calls @ [params]) tr')
      else Some (Inr frames, calls, tr)) = Some y"
  show "\<not> (C = 0 \<and> current \<le> end_dt \<and> - 106751 < current \<and> current \<le> 106751)"
  proof
    assume a: "C = 0 \<and> current \<le> end_dt \<and> - 106751 < current \<and> current \<le> 106751"
    then have m: "min (current + (C - 1)) end_dt + 1 = current" by simp
    have ok: "timedelta_ok (C - 1)" "timestamp_ok (current + (C - 1))"
      "timestamp_ok (min (current + (C - 1)) end_dt + 1)"
      using a by (simp_all add: timedelta_ok_iff timestamp_ok_iff)
    from body a ok obtain fr cs tr1 where
      "loop session sid dts C limit end_dt (min (current + (C - 1)) end_dt + 1) fr cs tr1 = Some y"
      by (auto simp: Let_def split: prod.splits)
    from IH [OF this] a m show False by simp
  qed
qed

lemma chunk_loop_diverges:
  "current \<le> end_dt \<Longrightarrow> - 106751 < current \<Longrightarrow> current \<le> 106751 \<Longrightarrow>
   chunk_loop session sid dts 0 limit end_dt current frames calls tr = None"
  using chunk_loop_stuck [of session sid dts 0 limit end_dt current frames calls tr]
  by (cases "chunk_loop session sid dts 0 limit end_dt current frames calls tr") auto

lemma fetch_run:
  assumes "1 \<le> C"
  shows "\<exists>res calls evs ks.
           fetch_daily_chunked td session sid start_dt end_dt dts C limit tr
             = Some (res, calls, tr @ evs) \<and>
           length calls \<le> nat ((end_dt - start_dt + C) div C) \<and>
           sorted_wrt (<) (map p_startdate calls) \<and>
           length ks = length calls \<and> (\<forall>k\<in>set ks. 1 \<le> k \<and> k \<le> 3) \<and>
           requested evs = concat (map2 replicate ks calls) \<and>
           (start_dt \<le> end_dt \<and> C - 1 \<le> 106751 \<and> - 106751 \<le> start_dt \<and>
            end_dt + C - 1 \<le> 106751 \<and> end_dt + 1 \<le> 106751 \<longrightarrow>
              (\<exists>frames. res = Inr (reshape td frames)) \<and>
              tiling C start_dt end_dt (map window calls) \<and>
              length calls = nat ((end_dt - start_dt + C) div C))"
proof (cases "timestamp_ok start_dt \<and> timestamp_ok end_dt")
  case False
  then have "fetch_daily_chunked td session sid start_dt end_dt dts C limit tr
               = Some (Inl OutOfBoundsDatetime, [], tr @ [])"
    by (auto simp: fetch_daily_chunked_def)
  moreover have "\<not> (start_dt \<le> end_dt \<and> C - 1 \<le> 106751 \<and> - 106751 \<le> start_dt \<and>
            end_dt + C - 1 \<le> 106751 \<and> end_dt + 1 \<le> 106751)"
    using False by (auto simp: timestamp_ok_iff)
  ultimately show ?thesis
    by (intro exI [of _ "Inl OutOfBoundsDatetime"] exI [of _ "[]"]) simp
next
  case True
  from chunk_loop_run [OF assms, of session sid dts limit end_dt start_dt "[]" "[]" tr]
  obtain res new evs ks where
    loop: "chunk_loop session sid dts C limit end_dt start_dt [] [] tr
             = Some (res, [] @ new, tr @ evs)"
    and len: "length new \<le> nat ((end_dt - start_dt + C) div C)"
    and srt: "sorted_wrt (<) (map p_startdate new)"
    and ks: "length ks = length new" "\<forall>k\<in>set ks. 1 \<le> k \<and> k \<le> 3"
      "requested evs = concat (map2 replicate ks new)"
    and fits: "C - 1 \<le> 106751 \<and> - 106751 \<le> start_dt \<and> end_dt + C - 1 \<le> 106751 \<and>
            end_dt + 1 \<le> 106751 \<longrightarrow>
              (\<exists>frames'. res = Inr frames') \<and>
              tiling C start_dt end_dt (map window new) \<and>
              length new = nat ((end_dt - start_dt + C) div C)"
    by blast
  define out where "out = (case res of Inl e \<Rightarrow> Inl e | Inr frames \<Rightarrow> Inr (reshape td frames))"
  have run: "fetch_daily_chunked td session sid start_dt end_dt dts C limit tr
               = Some (out, new, tr @ evs)"
    using True loop by (simp add: fetch_daily_chunked_def out_def split: sum.splits)
  have "start_dt \<le> end_dt \<and> C - 1 \<le> 106751 \<and> - 106751 \<le> start_dt \<and>
            end_dt + C - 1 \<le> 106751 \<and> end_dt + 1 \<le> 106751 \<longrightarrow>
              (\<exists>frames. out = Inr (reshape td frames)) \<and>
              tiling C start_dt end_dt (map window new) \<and>
              length new = nat ((end_dt - start_dt + C) div C)"
    using fits by (auto simp: out_def)
  then show ?thesis
    using run len srt ks
    by (intro exI [of _ out] exI [of _ new] exI [of _ evs] exI [of _ ks]) blast
qed

text \<open>
  The GETs of the run are those of the \<open>ncei_request\<close> calls in order, each call's
  parameters once for each of its one to three attempts.
\<close>

lemma fetch_daily_chunked_requests:
  assumes "1 \<le> chunk_days"
  shows "\<exists>res calls evs ks.
           fetch_daily_chunked td session sid start_dt end_dt dts chunk_days limit tr
             = Some (res, calls, tr @ evs) \<and>
           length ks = length calls \<and> (\<forall>k\<in>set ks. 1 \<le> k \<and> k \<le> 3) \<and>
           requested evs = concat (map2 replicate ks calls)"
  using fetch_run [OF assms, of td session sid start_dt end_dt dts limit tr] by blast

lemma fetch_daily_chunked_diverges:
  "start_dt \<le> end_dt \<Longrightarrow> - 106751 < start_dt \<Longrightarrow> end_dt \<le> 106751 \<Longrightarrow>
   fetch_daily_chunked td session sid start_dt end_dt dts 0 limit tr = None"
  by (simp add: fetch_daily_chunked_def chunk_loop_diverges timestamp_ok_iff)

text \<open>Five days in chunks of two: three requests, for the days 0 to 1, 2 to 3 and 4.\<close>

lemma demo_request:
  "ncei_request demo_session p tr = (Inr (JDict (Some demo_records)), tr @ [GET p])"
  unfolding ncei_request_def attempts_upt
  by (simp add: ncei_attempts.simps demo_session_def raise_for_status_def)

lemma demo_records_nonempty: "demo_records \<noteq> []"
  by (simp add: demo_records_def)

lemma days_ok [simp]:
  "timestamp_ok 0" "timestamp_ok 1" "timestamp_ok 2" "timestamp_ok 3" "timestamp_ok 4"
  "timestamp_ok 5" "timedelta_ok 1"
  by (simp_all add: timestamp_ok_iff timedelta_ok_iff)

lemma demo_loop:
  "chunk_loop demo_session ''GHCND:X'' [''TMAX'', ''TMIN'', ''PRCP''] 2 1000 4 0 [] [] []
   = Some (Inr [demo_records, demo_records, demo_records],
           [demo_params 0 1, demo_params 2 3, demo_params 4 4],
           [GET (demo_params 0 1), GET (demo_params 2 3), GET (demo_params 4 4)])"
  by (simp add: chunk_loop.simps demo_request results_of_def
      demo_records_nonempty demo_params_def Let_def)

lemma demo_fetch:
  "fetch_daily_chunked demo_to_datetime demo_session ''GHCND:X'' 0 4
     [''TMAX'', ''TMIN'', ''PRCP''] 2 1000 []
   = Some (Inr (reshape demo_to_datetime [demo_records, demo_records, demo_records]),
           [demo_params 0 1, demo_params 2 3, demo_params 4 4],
           [GET (demo_params 0 1), GET (demo_params 2 3), GET (demo_params 4 4)])"
  by (simp add: fetch_daily_chunked_def demo_loop)

lemma demo_replay:
  "replay demo_session [demo_params 0 1, demo_params 2 3, demo_params 4 4] []
   = ([demo_records, demo_records, demo_records],
      [GET (demo_params 0 1), GET (demo_params 2 3), GET (demo_params 4 4)])"
  by (simp add: demo_request next_frames_def results_of_def demo_records_nonempty)




text \<open>
  C10. For \<open>start \<le> end\<close> and a chunk size of at least one day the call ends, by
  returning or by raising an out-of-bounds error; the cursor of each request is strictly
  later than that of the request before; the number of requests is at most the number of
  days of the range divided by the chunk size, rounded up. When no date of the loop
  leaves the range of pandas, it returns a table after exactly that many requests.
\<close>

theorem fetch_daily_chunked_terminates:
  assumes "start_dt \<le> end_dt" and "1 \<le> chunk_days"
  shows "\<exists>res calls tr'.
           fetch_daily_chunked td session sid start_dt end_dt dts chunk_days limit tr
             = Some (res, calls, tr') \<and>
           (\<forall>i. Suc i < length calls \<longrightarrow> p_startdate (calls ! i) < p_startdate (calls ! Suc i)) \<and>
           int (length calls) \<le> \<lceil>real_of_int (end_dt - start_dt + 1) / real_of_int chunk_days\<rceil> \<and>
           (- 106751 \<le> start_dt \<and> end_dt + 1 \<le> 106751 \<and> chunk_days - 1 \<le> 106751 \<and>
            end_dt + (chunk_days - 1) \<le> 106751 \<longrightarrow>
              (\<exists>table. res = Inr table) \<and>
              int (length calls)
                = \<lceil>real_of_int (end_dt - start_dt + 1) / real_of_int chunk_days\<rceil>)"
proof -
  from fetch_run [OF assms(2), of td session sid start_dt end_dt dts limit tr]
  obtain res calls evs where
    run: "fetch_daily_chunked td session sid start_dt end_dt dts chunk_days limit tr
             = Some (res, calls, tr @ evs)"
    and len: "length calls \<le> nat ((end_dt - start_dt + chunk_days) div chunk_days)"
    and srt: "sorted_wrt (<) (map p_startdate calls)"
    and fits: "start_dt \<le> end_dt \<and> chunk_days - 1 \<le> 106751 \<and> - 106751 \<le> start_dt \<and>
            end_dt + chunk_days - 1 \<le> 106751 \<and> end_dt + 1 \<le> 106751 \<longrightarrow>
              (\<exists>frames. res = Inr (reshape td frames)) \<and>
              length calls = nat ((end_dt - start_dt + chunk_days) div chunk_days)"
    by blast
  have adv: "\<forall>i. Suc i < length calls \<longrightarrow> p_startdate (calls ! i) < p_startdate (calls ! Suc i)"
  proof (intro allI impI)
    fix i assume i: "Suc i < length calls"
    then have "map p_startdate calls ! i < map p_startdate calls ! Suc i"
      using sorted_wrt_nth_less [OF srt, of i "Suc i"] by simp
    then show "p_startdate (calls ! i) < p_startdate (calls ! Suc i)"
      using i by simp
  qed
  have nonneg: "0 \<le> (end_dt - start_dt + chunk_days) div chunk_days"
    using assms by (simp add: pos_imp_zdiv_nonneg_iff)
  have ceil: "\<lceil>real_of_int (end_dt - start_dt + 1) / real_of_int chunk_days\<rceil>
              = (end_dt - start_dt + chunk_days) div chunk_days"
    using ceiling_div_chunks [OF assms(2), of "end_dt - start_dt + 1"]
    by (simp add: algebra_simps)
  have le: "int (length calls)
              \<le> \<lceil>real_of_int (end_dt - start_dt + 1) / real_of_int chunk_days\<rceil>"
    using len nonneg unfolding ceil by linarith
  have eq: "- 106751 \<le> start_dt \<and> end_dt + 1 \<le> 106751 \<and> chunk_days - 1 \<le> 106751 \<and>
            end_dt + (chunk_days - 1) \<le> 106751 \<longrightarrow>
              (\<exists>table. res = Inr table) \<and>
              int (length calls)
                = \<lceil>real_of_int (end_dt - start_dt + 1) / real_of_int chunk_days\<rceil>"
  proof
    assume a: "- 106751 \<le> start_dt \<and> end_dt + 1 \<le> 106751 \<and> chunk_days - 1 \<le> 106751 \<and>
            end_dt + (chunk_days - 1) \<le> 106751"
    then have "start_dt \<le> end_dt \<and> chunk_days - 1 \<le> 106751 \<and> - 106751 \<le> start_dt \<and>
            end_dt + chunk_days - 1 \<le> 106751 \<and> end_dt + 1 \<le> 106751"
      using assms(1) by simp
    with fits have r: "\<exists>frames. res = Inr (reshape td frames)"
      and n: "length calls = nat ((end_dt - start_dt + chunk_days) div chunk_days)"
      by blast+
    from n nonneg have "int (length calls) = (end_dt - start_dt + chunk_days) div chunk_days"
      by simp
    then show "(\<exists>table. res = Inr table) \<and>
              int (length calls)
                = \<lceil>real_of_int (end_dt - start_dt + 1) / real_of_int chunk_days\<rceil>"
      using r unfolding ceil by blast
  qed
  show ?thesis using run adv le eq by blast
qed

theorem fetch_daily_chunked_terminates_witness:
  "fetch_daily_chunked demo_to_datetime demo_session ''GHCND:X'' 0 4
     [''TMAX'', ''TMIN'', ''PRCP''] 2 1000 []
   = Some (Inr (reshape demo_to_datetime [demo_records, demo_records, demo_records]),
           [demo_params 0 1, demo_params 2 3, demo_params 4 4],
           [GET (demo_params 0 1), GET (demo_params 2 3), GET (demo_params 4 4)]) \<and>
   int (length [demo_params 0 1, demo_params 2 3, demo_params 4 4])
     = \<lceil>real_of_int (4 - 0 + 1) / real_of_int 2\<rceil>"
proof -
  have h1: "(0::int) \<le> 4" and h2: "(1::int) \<le> 2" by simp_all
  from fetch_daily_chunked_terminates [OF h1 h2, of demo_to_datetime demo_session "''GHCND:X''"
        "[''TMAX'', ''TMIN'', ''PRCP'']" 1000 "[]"]
  obtain res calls tr' where
    run: "fetch_daily_chunked demo_to_datetime demo_session ''GHCND:X'' 0 4
            [''TMAX'', ''TMIN'', ''PRCP''] 2 1000 [] = Some (res, calls, tr')"
    and eq: "- 106751 \<le> (0::int) \<and> (4::int) + 1 \<le> 106751 \<and> (2::int) - 1 \<le> 106751 \<and>
             (4::int) + (2 - 1) \<le> 106751 \<longrightarrow>
               (\<exists>table. res = Inr table) \<and>
               int (length calls) = \<lceil>real_of_int (4 - 0 + 1) / real_of_int 2\<rceil>"
    by blast
  from run have calls: "calls = [demo_params 0 1, demo_params 2 3, demo_params 4 4]"
    by (simp add: demo_fetch)
  have "int (length calls) = \<lceil>real_of_int (4 - 0 + 1) / real_of_int 2\<rceil>"
    using eq by simp
  then show ?thesis
    using demo_fetch unfolding calls by blast
qed


section \<open>\<open>fetch_daily_chunked\<close>: the daily table\<close>

lemma set_dedup_seen: "set (dedup_seen seen xs) = set xs - set seen"
  by (induction xs arbitrary: seen) auto

lemma set_drop_duplicates [simp]: "set (drop_duplicates xs) = set xs"
  by (simp add: drop_duplicates_def set_dedup_seen)

lemma distinct_dedup_seen: "distinct (dedup_seen seen xs)"
  by (induction xs arbitrary: seen) (auto simp: set_dedup_seen)

lemma find_dedup_seen:
  "\<forall>y\<in>set seen. \<not> P y \<Longrightarrow> find P (dedup_seen seen xs) = find P xs"
  by (induction xs arbitrary: seen) auto

lemma find_drop_duplicates: "find P (drop_duplicates xs) = find P xs"
  by (simp add: drop_duplicates_def find_dedup_seen)

lemma first_value_seen:
  "first_value td df d t = first_seen (seen_values td df d t)"
  by (induction df)
     (auto simp: first_value_def seen_values_def first_seen_def List.map_filter_simps
           split: option.splits)

lemma first_value_drop_duplicates:
  "first_value td (drop_duplicates df) d t = first_value td df d t"
  by (simp add: first_value_def find_drop_duplicates)

lemma set_map_filter: "set (List.map_filter f xs) = {y. \<exists>x\<in>set xs. f x = Some y}"
  by (induction xs) (auto simp: List.map_filter_simps split: option.splits)

lemma pivot_dates:
  "set (map date (pivot_table td df)) =
     {d. \<exists>r\<in>set df. obs_value r \<noteq> None \<and> normalize_date td r = Some d}"
  by (auto simp: pivot_table_def comp_def set_map_filter split: if_splits)

lemma first_seen_drop_duplicates:
  "first_seen (seen_values td (drop_duplicates df) d t) = first_seen (seen_values td df d t)"
  using first_value_drop_duplicates [of td df d t] by (simp add: first_value_seen)

lemma pivot_distinct: "distinct (map date (pivot_table td df))"
  by (simp add: pivot_table_def comp_def)

lemma pivot_sorted: "sorted (map date (pivot_table td df))"
  by (simp add: pivot_table_def comp_def)

lemma pivot_cell:
  "row \<in> set (pivot_table td df) \<Longrightarrow> obs row t = first_value td df (date row) t"
  by (auto simp: pivot_table_def)

lemma seen_values_nonempty:
  "(\<exists>t. seen_values td df d t \<noteq> []) \<longleftrightarrow>
   (\<exists>r\<in>set df. obs_value r \<noteq> None \<and> normalize_date td r = Some d)"
  by (auto simp: seen_values_def List.map_filter_def filter_empty_conv)

lemma reshape_props:
  "distinct (map date (reshape td frames)) \<and>
   sorted (map date (reshape td frames)) \<and>
   set (map date (reshape td frames)) = {d. \<exists>t. seen_values td (concat frames) d t \<noteq> []} \<and>
   (\<forall>row\<in>set (reshape td frames). \<forall>t.
       obs row t = first_seen (seen_values td (concat frames) (date row) t))"
proof (cases "frames = []")
  case True
  then show ?thesis by (simp add: reshape_def seen_values_def List.map_filter_simps)
next
  case False
  then show ?thesis
    by (simp add: reshape_def pivot_distinct pivot_sorted pivot_dates seen_values_nonempty
        pivot_cell first_seen_drop_duplicates first_value_seen del: set_map)
qed


lemma normalize_date_day:
  "normalize_date td r = Some d \<longleftrightarrow> (\<exists>i. td (obs_date r) = Some i \<and> i div 86400 = d)"
  by (auto simp: normalize_date_def)

lemma seen_values_explicit:
  "seen_values td df d t =
     List.map_filter obs_value
       (filter (\<lambda>r. (\<exists>i. td (obs_date r) = Some i \<and> i div 86400 = d) \<and> obs_datatype r = t) df)"
  by (simp add: seen_values_def normalize_date_day)

text \<open>
  The same in plain terms: the day of a row is the day of its parsed instant, 86400
  seconds to the day.
\<close>

lemma reshape_explicit:
  "distinct (map date (reshape td frames)) \<and>
   sorted (map date (reshape td frames)) \<and>
   set (map date (reshape td frames))
     = {d. \<exists>r\<in>set (concat frames). \<exists>i v.
             td (obs_date r) = Some i \<and> i div 86400 = d \<and> obs_value r = Some v} \<and>
   (\<forall>row\<in>set (reshape td frames). \<forall>t.
       obs row t =
         (case List.map_filter obs_value
                 (filter (\<lambda>r. (\<exists>i. td (obs_date r) = Some i \<and> i div 86400 = date row)
                               \<and> obs_datatype r = t) (concat frames)) of
            [] \<Rightarrow> None
          | v # _ \<Rightarrow> Some v))"
proof -
  note p = reshape_props [of td frames]
  have dates: "{d. \<exists>t. seen_values td (concat frames) d t \<noteq> []}
     = {d. \<exists>r\<in>set (concat frames). \<exists>i v.
             td (obs_date r) = Some i \<and> i div 86400 = d \<and> obs_value r = Some v}"
    unfolding seen_values_nonempty normalize_date_day by auto
  have d: "set (map date (reshape td frames))
     = {d. \<exists>r\<in>set (concat frames). \<exists>i v.
             td (obs_date r) = Some i \<and> i div 86400 = d \<and> obs_value r = Some v}"
    using p dates by (simp del: set_map)
  have c: "\<forall>row\<in>set (reshape td frames). \<forall>t.
       obs row t =
         (case List.map_filter obs_value
                 (filter (\<lambda>r. (\<exists>i. td (obs_date r) = Some i \<and> i div 86400 = date row)
                               \<and> obs_datatype r = t) (concat frames)) of
            [] \<Rightarrow> None
          | v # _ \<Rightarrow> Some v)"
    using p unfolding seen_values_explicit first_seen_def by blast
  show ?thesis
    using p d c by blast
qed

text \<open>
  The table of the example: of the two readings of the first day the first is kept, the
  row with the unreadable date is left out.
\<close>

lemma demo_table:
  "map (\<lambda>r. (date r, obs r ''TMAX'', obs r ''TMIN'', obs r ''PRCP''))
     (reshape demo_to_datetime [demo_records, demo_records, demo_records])
   = [(0, Some 50, None, None), (1, None, Some 30, None)]"
  by (simp add: reshape_def drop_duplicates_def demo_records_def demo_obs_def pivot_table_def
      normalize_date_def demo_to_datetime_def first_value_def)

text \<open>
  And the table of rows with gaps: the first value that is there is taken, and the day
  whose only row has no value gets no row.
\<close>

lemma gap_table:
  "map (\<lambda>r. (date r, obs r ''TMAX'', obs r ''TMIN''))
     (reshape demo_to_datetime [gap_records])
   = [(0, Some 60, None)]"
  by (simp add: reshape_def drop_duplicates_def gap_records_def demo_obs_def pivot_table_def
      normalize_date_def demo_to_datetime_def first_value_def)

text \<open>
  C1. Whatever the chunk responses were, when the function returns a table: its rows
  have pairwise different dates (at most one row per calendar date); the dates are
  exactly the calendar days (the parsed instant divided by the 86400 seconds of a day)
  of the received rows that have a value; and the cell of a row and an observation type
  is the first value, in the order received, among the rows of that calendar day and
  type, or empty when there is none. A row whose value is missing has no value to
  offer and is passed over; in particular, when the first row received for a day and
  type has a value, the cell is that value. (A table row is a function of the type, so
  it has one cell per type.)
\<close>

theorem fetch_daily_chunked_pivot:
  assumes "fetch_daily_chunked td session sid start_dt end_dt dts chunk_days limit tr
             = Some (Inr table, calls, tr')"
  shows "\<exists>records.
           records = concat (fst (replay session calls tr)) \<and>
           distinct (map date table) \<and>
           set (map date table)
             = {d. \<exists>r\<in>set records. \<exists>i v.
                     td (obs_date r) = Some i \<and> i div 86400 = d \<and> obs_value r = Some v} \<and>
           (\<forall>row\<in>set table. \<forall>t.
               obs row t =
                 (case List.map_filter obs_value
                         (filter (\<lambda>r. (\<exists>i. td (obs_date r) = Some i \<and> i div 86400 = date row)
                                       \<and> obs_datatype r = t) records) of
                    [] \<Rightarrow> None
                  | v # _ \<Rightarrow> Some v)) \<and>
           (\<forall>row\<in>set table. \<forall>t r rest v.
               filter (\<lambda>r. (\<exists>i. td (obs_date r) = Some i \<and> i div 86400 = date row)
                             \<and> obs_datatype r = t) records = r # rest \<and>
               obs_value r = Some v \<longrightarrow> obs row t = Some v)"
proof -
  from assms obtain frames where
    loop: "chunk_loop session sid dts chunk_days limit end_dt start_dt [] [] tr
             = Some (Inr frames, calls, tr')"
    and table: "table = reshape td frames"
    by (auto simp: fetch_daily_chunked_def split: if_splits option.splits sum.splits)
  from chunk_loop_frames [OF loop] have frames: "frames = fst (replay session calls tr)"
    by auto
  define records where "records = concat (fst (replay session calls tr))"
  note e = reshape_explicit [of td frames, folded table, unfolded frames, folded records_def]
  have lit: "\<forall>row\<in>set table. \<forall>t r rest v.
               filter (\<lambda>r. (\<exists>i. td (obs_date r) = Some i \<and> i div 86400 = date row)
                             \<and> obs_datatype r = t) records = r # rest \<and>
               obs_value r = Some v \<longrightarrow> obs row t = Some v"
  proof (intro ballI allI impI)
    fix row t r rest v
    assume row: "row \<in> set table"
      and f: "filter (\<lambda>r. (\<exists>i. td (obs_date r) = Some i \<and> i div 86400 = date row)
                             \<and> obs_datatype r = t) records = r # rest \<and>
               obs_value r = Some v"
    from e row have "obs row t =
                 (case List.map_filter obs_value
                         (filter (\<lambda>r. (\<exists>i. td (obs_date r) = Some i \<and> i div 86400 = date row)
                                       \<and> obs_datatype r = t) records) of
                    [] \<Rightarrow> None
                  | v # _ \<Rightarrow> Some v)"
      by blast
    then show "obs row t = Some v"
      using f by (simp add: List.map_filter_simps)
  qed
  show ?thesis
    using e lit records_def by blast
qed

theorem fetch_daily_chunked_pivot_witness:
  "fetch_daily_chunked demo_to_datetime demo_session ''GHCND:X'' 0 4
     [''TMAX'', ''TMIN'', ''PRCP''] 2 1000 []
   = Some (Inr (reshape demo_to_datetime [demo_records, demo_records, demo_records]),
           [demo_params 0 1, demo_params 2 3, demo_params 4 4],
           [GET (demo_params 0 1), GET (demo_params 2 3), GET (demo_params 4 4)]) \<and>
   distinct (map date (reshape demo_to_datetime [demo_records, demo_records, demo_records])) \<and>
   set (map date (reshape demo_to_datetime [demo_records, demo_records, demo_records]))
     = {d. \<exists>r\<in>set (concat [demo_records, demo_records, demo_records]). \<exists>i v.
             demo_to_datetime (obs_date r) = Some i \<and> i div 86400 = d \<and> obs_value r = Some v} \<and>
   (\<forall>t. obs (hd (reshape demo_to_datetime [demo_records, demo_records, demo_records])) t =
      (case List.map_filter obs_value
              (filter (\<lambda>r. (\<exists>i. demo_to_datetime (obs_date r) = Some i \<and>
                   i div 86400
                     = date (hd (reshape demo_to_datetime [demo_records, demo_records, demo_records])))
                 \<and> obs_datatype r = t)
                 (concat [demo_records, demo_records, demo_records])) of
         [] \<Rightarrow> None
       | v # _ \<Rightarrow> Some v))"
proof -
  let ?T = "reshape demo_to_datetime [demo_records, demo_records, demo_records]"
  from fetch_daily_chunked_pivot [OF demo_fetch] obtain records where
    r: "records = concat (fst (replay demo_session
           [demo_params 0 1, demo_params 2 3, demo_params 4 4] []))"
    and d: "distinct (map date ?T)"
    and s: "set (map date ?T)
       = {d. \<exists>r\<in>set records. \<exists>i v.
             demo_to_datetime (obs_date r) = Some i \<and> i div 86400 = d \<and> obs_value r = Some v}"
    and c: "\<forall>row\<in>set ?T. \<forall>t.
               obs row t =
                 (case List.map_filter obs_value
                         (filter (\<lambda>r. (\<exists>i. demo_to_datetime (obs_date r) = Some i
                                          \<and> i div 86400 = date row)
                                       \<and> obs_datatype r = t) records) of
                    [] \<Rightarrow> None
                  | v # _ \<Rightarrow> Some v)"
    by blast
  have records: "records = concat [demo_records, demo_records, demo_records]"
    unfolding r by (simp only: demo_replay fst_conv)
  have "?T \<noteq> []" using demo_table by auto
  then have "hd ?T \<in> set ?T" by simp
  with c have "\<forall>t. obs (hd ?T) t =
                 (case List.map_filter obs_value
                         (filter (\<lambda>r. (\<exists>i. demo_to_datetime (obs_date r) = Some i
                                          \<and> i div 86400 = date (hd ?T))
                                       \<and> obs_datatype r = t) records) of
                    [] \<Rightarrow> None
                  | v # _ \<Rightarrow> Some v)"
    by blast
  then show ?thesis
    using demo_fetch d s unfolding records by blast
qed


section \<open>The join of \<open>main\<close>\<close>

lemma filter_key_distinct:
  "distinct (map f xs) \<Longrightarrow> filter (\<lambda>r. f r = k) xs = (case find (\<lambda>r. f r = k) xs of None \<Rightarrow> [] | Some r \<Rightarrow> [r])"
proof (induction xs)
  case Nil
  then show ?case by simp
next
  case (Cons x xs)
  show ?case
  proof (cases "f x = k")
    case True
    then have "filter (\<lambda>r. f r = k) xs = []"
      using Cons.prems by (auto simp: filter_empty_conv image_iff)
    then show ?thesis using True by simp
  next
    case False
    then show ?thesis using Cons by simp
  qed
qed

lemma merge_left_unique:
  assumes "distinct (map right_on right)"
  shows "merge_left left_on right_on left right =
         map (\<lambda>l. (l, find (\<lambda>r. right_on r = left_on l) right)) left"
proof -
  have "\<And>l. (case filter (\<lambda>r. right_on r = left_on l) right of
                          [] \<Rightarrow> [(l, None)]
                        | ms \<Rightarrow> map (\<lambda>r. (l, Some r)) ms)
            = [(l, find (\<lambda>r. right_on r = left_on l) right)]"
    by (simp add: filter_key_distinct [OF assms] split: option.splits)
  then show ?thesis
    by (simp add: merge_left_def)
qed

text \<open>
  C3. When the daily table has at most one row per date, the join returns the events in
  their order, one output row each; an event whose date matches no daily row keeps its
  row with the observation columns empty, and an event whose date matches a daily row
  gets that row.
\<close>

theorem join_events_left_join:
  assumes "distinct (map date daily)"
  shows "length (join_events to_datetime events daily) = length events \<and>
         map fst (join_events to_datetime events daily) = events \<and>
         (\<forall>i < length events.
            (\<forall>row\<in>set daily. Some (date row) \<noteq> event_date to_datetime (events ! i)) \<longrightarrow>
            snd (join_events to_datetime events daily ! i) = None) \<and>
         (\<forall>i < length events. \<forall>row\<in>set daily.
            Some (date row) = event_date to_datetime (events ! i) \<longrightarrow>
            snd (join_events to_datetime events daily ! i) = Some row)"
proof -
  have d: "distinct (map noaa_date daily)"
    using assms by (simp add: noaa_date_def [abs_def] distinct_map inj_on_def comp_def)
  have j: "join_events to_datetime events daily =
           map (\<lambda>e. (e, find (\<lambda>r. noaa_date r = event_date to_datetime e) daily)) events"
    unfolding join_events_def by (rule merge_left_unique [OF d])
  have none: "\<forall>i < length events.
            (\<forall>row\<in>set daily. Some (date row) \<noteq> event_date to_datetime (events ! i)) \<longrightarrow>
            snd (join_events to_datetime events daily ! i) = None"
    by (auto simp: j find_None_iff noaa_date_def)
  have some: "\<forall>i < length events. \<forall>row\<in>set daily.
            Some (date row) = event_date to_datetime (events ! i) \<longrightarrow>
            snd (join_events to_datetime events daily ! i) = Some row"
  proof (intro allI impI ballI)
    fix i row
    assume i: "i < length events" and row: "row \<in> set daily"
      and m: "Some (date row) = event_date to_datetime (events ! i)"
    obtain r where f: "find (\<lambda>r. noaa_date r = event_date to_datetime (events ! i)) daily = Some r"
      using row m by (cases "find (\<lambda>r. noaa_date r = event_date to_datetime (events ! i)) daily")
        (auto simp: find_None_iff noaa_date_def)
    then have "r \<in> set daily" "noaa_date r = event_date to_datetime (events ! i)"
      by (auto simp: find_Some_iff)
    then have "Some (date r) = Some (date row)" using m by (simp only: noaa_date_def)
    then have "date r = date row" by simp
    then have "r = row"
      using assms row \<open>r \<in> set daily\<close> by (auto simp: distinct_map inj_on_def)
    then show "snd (join_events to_datetime events daily ! i) = Some row"
      using i f by (simp add: j)
  qed
  show ?thesis
    using none some by (simp add: j comp_def)
qed

theorem join_events_left_join_witness:
  "distinct (map date [demo_daily_row]) \<and>
   length (join_events demo_to_datetime demo_events [demo_daily_row]) = length demo_events \<and>
   map fst (join_events demo_to_datetime demo_events [demo_daily_row]) = demo_events \<and>
   snd (join_events demo_to_datetime demo_events [demo_daily_row] ! 0) = Some demo_daily_row \<and>
   snd (join_events demo_to_datetime demo_events [demo_daily_row] ! 1) = None"
proof -
  have h: "distinct (map date [demo_daily_row])" by simp
  note t = join_events_left_join [OF h, of demo_to_datetime demo_events]
  have i0: "0 < length demo_events" and i1: "1 < length demo_events"
    by (simp_all add: demo_events_def)
  have m0: "Some (date demo_daily_row) = event_date demo_to_datetime (demo_events ! 0)"
    by (simp add: demo_events_def event_date_def event_dt_def demo_to_datetime_def
        demo_daily_row_def)
  have m1: "\<forall>row\<in>set [demo_daily_row].
              Some (date row) \<noteq> event_date demo_to_datetime (demo_events ! 1)"
    by (simp add: demo_events_def event_date_def event_dt_def demo_to_datetime_def
        demo_daily_row_def)
  have "snd (join_events demo_to_datetime demo_events [demo_daily_row] ! 0) = Some demo_daily_row"
    using t i0 m0 by (metis list.set_intros(1))
  moreover have "snd (join_events demo_to_datetime demo_events [demo_daily_row] ! 1) = None"
    using t i1 m1 by blast
  ultimately show ?thesis using h t by blast
qed

text \<open>
  The example: the first event (modified on the first day) gets the observations of that
  day, the second (created on the third day) keeps its row with nothing attached.
\<close>

lemma demo_join:
  "join_events demo_to_datetime demo_events [demo_daily_row]
   = [(demo_events ! 0, Some demo_daily_row), (demo_events ! 1, None)]"
  by (simp add: join_events_def merge_left_def demo_events_def event_date_def event_dt_def
      demo_to_datetime_def noaa_date_def demo_daily_row_def)

text \<open>The table of \<open>fetch_daily_chunked\<close> always qualifies, so the join after it keeps the row count.\<close>

lemma join_after_reshape:
  "length (join_events td' events (reshape td frames)) = length events"
proof -
  have "distinct (map noaa_date (reshape td frames))"
    using reshape_props [of td frames]
    by (simp add: noaa_date_def [abs_def] distinct_map inj_on_def comp_def)
  then show ?thesis
    unfolding join_events_def by (simp add: merge_left_unique)
qed


section \<open>The pacing of the Overpass queries\<close>

text \<open>After a query that succeeds, the loop sleeps 1.2 seconds before it goes on.\<close>

lemma query_perimeters_success:
  "query_overpass session amenities lat lon radius_m tr = (Inr rows, tr') \<Longrightarrow>
   query_perimeters session amenities radius_m ((pid, lat, lon) # rest) all_rows tr =
   query_perimeters session amenities radius_m rest
     (all_rows @ map (\<lambda>r. amenity.extend r (tagged_amenity.fields pid)) rows)
     (tr' @ [SLEEP (12 / 10)])"
  by simp

text \<open>After a query that fails, it goes on at once.\<close>

lemma query_perimeters_failure:
  "query_overpass session amenities lat lon radius_m tr = (Inl e, tr') \<Longrightarrow>
   query_perimeters session amenities radius_m ((pid, lat, lon) # rest) all_rows tr =
   query_perimeters session amenities radius_m rest all_rows tr'"
  by simp

text \<open>
  C9 does not hold of the code. With two perimeters of which the first query is rejected
  (HTTP 400), the second query follows the first with no sleep between them: the only
  sleep of the run comes after the second query.
\<close>

theorem query_perimeters_no_pause_after_failure:
  "query_perimeters rejecting_session [''school''] 5000 [(1, 10, 20), (2, 11, 21)] [] []
   = ([], [GET (demo_query 10 20), GET (demo_query 11 21), SLEEP (12 / 10)])"
  by (simp add: query_overpass_def rejecting_session_def raise_for_status_def demo_query_def
      Let_def)

end
